theory Spec2Isabelle
  imports Main "HOL-Library.Sublist"
begin

section \<open>Go strings and the \<open>strings\<close> functions the package calls\<close>

text \<open>
  A Go string is a sequence of bytes, here a \<^typ>\<open>string\<close> (a list of 8-bit
  \<^typ>\<open>char\<close>). The functions below follow the standard library on bytes.
\<close>

definition HasPrefix :: "string \<Rightarrow> string \<Rightarrow> bool" where
  "HasPrefix s p = (length p \<le> length s \<and> take (length p) s = p)"

definition HasSuffix :: "string \<Rightarrow> string \<Rightarrow> bool" where
  "HasSuffix s p = (length p \<le> length s \<and> drop (length s - length p) s = p)"

definition TrimPrefix :: "string \<Rightarrow> string \<Rightarrow> string" where
  "TrimPrefix s p = (if HasPrefix s p then drop (length p) s else s)"

definition TrimSuffix :: "string \<Rightarrow> string \<Rightarrow> string" where
  "TrimSuffix s p = (if HasSuffix s p then take (length s - length p) s else s)"

text \<open>\<open>strings.Index\<close>: the first position at which \<open>sub\<close> starts, or -1.\<close>

fun Index_from :: "int \<Rightarrow> string \<Rightarrow> string \<Rightarrow> int" where
  "Index_from i [] sub = (if sub = [] then i else -1)"
| "Index_from i (c # s) sub =
     (if HasPrefix (c # s) sub then i else Index_from (i + 1) s sub)"

definition Index :: "string \<Rightarrow> string \<Rightarrow> int" where
  "Index s sub = Index_from 0 s sub"

text \<open>\<open>strings.LastIndex\<close>: the last position at which \<open>sub\<close> starts, or -1.\<close>

fun LastIndex_from :: "int \<Rightarrow> string \<Rightarrow> string \<Rightarrow> int" where
  "LastIndex_from i [] sub = (if sub = [] then i else -1)"
| "LastIndex_from i (c # s) sub =
     (let later = LastIndex_from (i + 1) s sub in
      if later \<ge> 0 then later else if HasPrefix (c # s) sub then i else -1)"

definition LastIndex :: "string \<Rightarrow> string \<Rightarrow> int" where
  "LastIndex s sub = LastIndex_from 0 s sub"

definition Contains :: "string \<Rightarrow> string \<Rightarrow> bool" where
  "Contains s sub = (Index s sub \<ge> 0)"

text \<open>Slicing \<open>s[i:]\<close> and \<open>s[:j]\<close> at indices the caller has found in \<open>s\<close>.\<close>

definition slice_from :: "string \<Rightarrow> int \<Rightarrow> string" where
  "slice_from s i = drop (nat i) s"

definition slice_to :: "string \<Rightarrow> int \<Rightarrow> string" where
  "slice_to s j = take (nat j) s"

section \<open>What the package takes from the Go library and runtime\<close>

text \<open>
  The package calls into \<open>strings\<close>, \<open>path/filepath\<close>, \<open>runtime\<close> and
  \<open>log/slog\<close>. What those packages compute from Unicode tables, from the file
  system, from the program's symbol table or from the allocator is not code of
  this package; the record \<open>golib\<close> holds these functions, and every definition
  below takes them from it. \<open>'v\<close> is the type of \<open>slog.Value\<close>.

  \<^item> \<open>Map_ToLower\<close> is \<open>strings.Map(unicode.ToLower, s)\<close>; \<open>TrimFunc_IsSpace\<close> and
    \<open>TrimRightFunc_IsSpace\<close> are \<open>strings.TrimFunc(s, unicode.IsSpace)\<close> and
    \<open>strings.TrimRightFunc(s, unicode.IsSpace)\<close>.
  \<^item> \<open>filepath_Abs_dot\<close> is \<open>filepath.Abs(".")\<close>, \<open>filepath_Rel\<close> and
    \<open>filepath_Base\<close> are \<open>filepath.Rel\<close> and \<open>filepath.Base\<close>; \<open>None\<close> is a
    returned error.
  \<^item> \<open>CallersFrames\<close> gives \<open>frame.File\<close> and \<open>frame.Function\<close> of the first frame
    of a program counter.
  \<^item> \<open>growslice\<close> is the capacity \<open>append\<close> chooses for a new backing array, from
    the old capacity and the length needed.
  \<^item> \<open>Value_Kind\<close>, \<open>Value_String\<close>, \<open>Value_Time_String\<close> (\<open>v.Time().String()\<close>),
    \<open>Value_Duration_String\<close> (\<open>v.Duration().String()\<close>) and \<open>Value_isEmptyGroup\<close>
    are the methods of \<open>slog.Value\<close>.
\<close>

datatype Kind = KindAny | KindBool | KindDuration | KindFloat64 | KindInt64
  | KindString | KindTime | KindUint64 | KindGroup | KindLogValuer

record 'v golib =
  Map_ToLower :: "string \<Rightarrow> string"
  TrimFunc_IsSpace :: "string \<Rightarrow> string"
  TrimRightFunc_IsSpace :: "string \<Rightarrow> string"
  filepath_Abs_dot :: "string option"
  filepath_Rel :: "string \<Rightarrow> string \<Rightarrow> string option"
  filepath_Base :: "string \<Rightarrow> string"
  CallersFrames :: "nat \<Rightarrow> string \<times> string"
  growslice :: "nat \<Rightarrow> nat \<Rightarrow> nat"
  Value_Kind :: "'v \<Rightarrow> Kind"
  Value_String :: "'v \<Rightarrow> string"
  Value_Time_String :: "'v \<Rightarrow> string"
  Value_Duration_String :: "'v \<Rightarrow> string"
  Value_isEmptyGroup :: "'v \<Rightarrow> bool"

subsection \<open>Case folding and trimming\<close>

text \<open>
  \<open>strings.ToLower\<close> and \<open>strings.TrimSpace\<close> work on bytes as long as the
  bytes they look at are ASCII, and go to the Unicode tables otherwise.
\<close>

definition RuneSelf :: nat where
  "RuneSelf = 128"

definition is_ascii :: "char \<Rightarrow> bool" where
  "is_ascii c = (of_char c < RuneSelf)"

definition ascii_lower :: "char \<Rightarrow> char" where
  "ascii_lower c =
     (if (65::nat) \<le> of_char c \<and> of_char c \<le> (90::nat)
      then char_of (of_char c + (32::nat)) else c)"

definition ToLower :: "'v golib \<Rightarrow> string \<Rightarrow> string" where
  "ToLower L s = (if list_all is_ascii s then map ascii_lower s else Map_ToLower L s)"

text \<open>The ASCII white space of \<open>strings.TrimSpace\<close>: tab, LF, VT, FF, CR, space.\<close>

definition asciiSpace :: "char \<Rightarrow> bool" where
  "asciiSpace c = (of_char c \<in> {9, 10, 11, 12, 13, 32::nat})"

definition TrimSpace :: "'v golib \<Rightarrow> string \<Rightarrow> string" where
  "TrimSpace L s =
     (let s1 = dropWhile asciiSpace s in
      if s1 \<noteq> [] \<and> \<not> is_ascii (hd s1) then TrimFunc_IsSpace L s1
      else
        let r = dropWhile asciiSpace (rev s1) in
        if r \<noteq> [] \<and> \<not> is_ascii (hd r) then TrimRightFunc_IsSpace L (rev r)
        else rev r)"

section \<open>Levels\<close>

text \<open>\<open>slog.Level\<close> is an integer; the four named levels are 4 apart.\<close>

type_synonym Level = int

definition LevelDebug :: Level where "LevelDebug = -4"
definition LevelInfo :: Level where "LevelInfo = 0"
definition LevelWarn :: Level where "LevelWarn = 4"
definition LevelError :: Level where "LevelError = 8"

definition ParseLevel :: "'v golib \<Rightarrow> string \<Rightarrow> Level" where
  "ParseLevel L level =
     (let l = ToLower L (TrimSpace L level) in
      if l = ''debug'' then LevelDebug
      else if l = ''info'' then LevelInfo
      else if l = ''warn'' \<or> l = ''warning'' then LevelWarn
      else if l = ''error'' then LevelError
      else LevelInfo)"

section \<open>The pattern matcher\<close>

definition matchPattern :: "string \<Rightarrow> string \<Rightarrow> bool" where
  "matchPattern pattern v =
     (if pattern = [] then False
      else
        let startsWithWildcard = HasPrefix pattern ''*'';
            endsWithWildcard = HasSuffix pattern ''*''
        in
          if startsWithWildcard \<and> endsWithWildcard then
            (let middle = TrimSuffix (TrimPrefix pattern ''*'') ''*'' in
             if middle = [] then True else Contains v middle)
          else if endsWithWildcard then
            (let pre = TrimSuffix pattern ''*'' in HasPrefix v pre)
          else if startsWithWildcard then
            (let suf = TrimPrefix pattern ''*'' in HasSuffix v suf)
          else pattern = v)"

section \<open>Filter rules\<close>

text \<open>
  A \<open>time.Time\<close> is an instant, counted from the zero time (for which \<open>IsZero\<close>
  holds). \<open>ExpiresAt\<close> is a pointer to one, \<open>None\<close> when nil. Each operation that
  asks \<open>time.Now()\<close> takes the clock reading \<open>now\<close> as an argument.
\<close>

type_synonym Time = int

definition IsZero :: "Time \<Rightarrow> bool" where
  "IsZero t = (t = 0)"

definition After :: "Time \<Rightarrow> Time \<Rightarrow> bool" where
  "After t u = (t > u)"

definition ContextPrefix :: string where
  "ContextPrefix = ''context:''"

definition SourceFilePrefix :: string where
  "SourceFilePrefix = ''source:file''"

definition SourceFunctionPrefix :: string where
  "SourceFunctionPrefix = ''source:function''"

record LogFilter =
  Type :: string
  Pattern :: string
  Level :: string
  OutputLevel :: string
  Enabled :: bool
  ExpiresAt :: "Time option"

definition IsExpired :: "Time \<Rightarrow> LogFilter \<Rightarrow> bool" where
  "IsExpired now f =
     (case ExpiresAt f of
        None \<Rightarrow> False
      | Some e \<Rightarrow> if IsZero e then False else After now e)"

definition IsActive :: "Time \<Rightarrow> LogFilter \<Rightarrow> bool" where
  "IsActive now f = (Enabled f \<and> \<not> IsExpired now f)"

definition Matches :: "LogFilter \<Rightarrow> string \<Rightarrow> bool" where
  "Matches f v = matchPattern (Pattern f) v"

definition IsContextFilter :: "LogFilter \<Rightarrow> bool" where
  "IsContextFilter f = HasPrefix (Type f) ContextPrefix"

definition ContextKey :: "LogFilter \<Rightarrow> string" where
  "ContextKey f = (if \<not> IsContextFilter f then [] else TrimPrefix (Type f) ContextPrefix)"

definition IsSourceFileFilter :: "LogFilter \<Rightarrow> bool" where
  "IsSourceFileFilter f = (Type f = SourceFilePrefix)"

definition IsSourceFunctionFilter :: "LogFilter \<Rightarrow> bool" where
  "IsSourceFunctionFilter f = (Type f = SourceFunctionPrefix)"

definition IsSourceFilter :: "LogFilter \<Rightarrow> bool" where
  "IsSourceFilter f = (IsSourceFileFilter f \<or> IsSourceFunctionFilter f)"

definition AttributeKey :: "LogFilter \<Rightarrow> string" where
  "AttributeKey f = (if IsContextFilter f \<or> IsSourceFilter f then [] else Type f)"

definition HasOutputLevel :: "LogFilter \<Rightarrow> bool" where
  "HasOutputLevel f = (OutputLevel f \<noteq> [])"

definition GetOutputLevel :: "'v golib \<Rightarrow> LogFilter \<Rightarrow> Level \<Rightarrow> Level" where
  "GetOutputLevel L f originalLevel =
     (if OutputLevel f = [] then originalLevel else ParseLevel L (OutputLevel f))"

section \<open>Records, attributes and the inner handler\<close>

text \<open>
  An \<open>slog.Record\<close> holds its time, message, level, program counter and its
  attributes in the order they were added. \<open>AddAttrs\<close> leaves out empty groups.
  The inner \<open>slog.Handler\<close> is the handler the package was given, or one derived
  from it by \<open>WithAttrs\<close> or \<open>WithGroup\<close>.
\<close>

datatype 'v Attr = Attr (Key: string) (Value: 'v)

record 'v Record =
  Record_Time :: Time
  Record_Message :: string
  Record_Level :: Level
  Record_PC :: nat
  Record_Attrs :: "'v Attr list"

definition NewRecord :: "Time \<Rightarrow> Level \<Rightarrow> string \<Rightarrow> nat \<Rightarrow> 'v Record" where
  "NewRecord t level msg pc =
     \<lparr>Record_Time = t, Record_Message = msg, Record_Level = level, Record_PC = pc,
      Record_Attrs = []\<rparr>"

definition AddAttrs :: "'v golib \<Rightarrow> 'v Attr list \<Rightarrow> 'v Record \<Rightarrow> 'v Record" where
  "AddAttrs L as r =
     r\<lparr>Record_Attrs := Record_Attrs r @ filter (\<lambda>a. \<not> Value_isEmptyGroup L (Value a)) as\<rparr>"

datatype 'v sink = Sink nat
  | Sink_WithAttrs "'v sink" "'v Attr list"
  | Sink_WithGroup "'v sink" string

text \<open>
  What \<open>Handle\<close> does with a record: it returns nil without calling the inner
  handler, or it returns what \<open>inner.Handle\<close> returns for the record it passes on.
\<close>

datatype 'v outcome = Suppressed | Forwarded "'v sink" "'v Record"

definition attrValueToString :: "'v golib \<Rightarrow> 'v \<Rightarrow> string" where
  "attrValueToString L v =
     (case Value_Kind L v of
        KindString \<Rightarrow> Value_String L v
      | KindInt64 \<Rightarrow> Value_String L v
      | KindUint64 \<Rightarrow> Value_String L v
      | KindFloat64 \<Rightarrow> Value_String L v
      | KindBool \<Rightarrow> Value_String L v
      | KindTime \<Rightarrow> Value_Time_String L v
      | KindDuration \<Rightarrow> Value_Duration_String L v
      | _ \<Rightarrow> Value_String L v)"

section \<open>Slices and the memory they share\<close>

text \<open>
  A slice is a header (backing array, length, capacity); copying a struct copies
  the header and shares the array. A backing array is kept as the list of its
  slots written so far; the slots from there up to the capacity hold zero values
  that no slice of this package reads. \<open>append\<close> writes in place when the
  capacity suffices and allocates a new array otherwise. The nil slice has
  length and capacity 0.
\<close>

record slice =
  sl_array :: nat
  sl_len :: nat
  sl_cap :: nat

definition nil_slice :: slice where
  "nil_slice = \<lparr>sl_array = 0, sl_len = 0, sl_cap = 0\<rparr>"

definition view :: "(nat \<Rightarrow> 'a list) \<Rightarrow> slice \<Rightarrow> 'a list" where
  "view arrs s = take (sl_len s) (arrs (sl_array s))"

definition write_at :: "'a list \<Rightarrow> nat \<Rightarrow> 'a list \<Rightarrow> 'a list" where
  "write_at arr i xs = take i arr @ xs @ drop (i + length xs) arr"

definition make_slice ::
  "(nat \<Rightarrow> 'a list) \<Rightarrow> nat \<Rightarrow> 'a list \<Rightarrow> nat \<Rightarrow> (nat \<Rightarrow> 'a list) \<times> nat \<times> slice" where
  "make_slice arrs next xs c =
     (arrs(next := xs), next + 1, \<lparr>sl_array = next, sl_len = length xs, sl_cap = c\<rparr>)"

definition append_slice ::
  "(nat \<Rightarrow> nat \<Rightarrow> nat) \<Rightarrow> (nat \<Rightarrow> 'a list) \<Rightarrow> nat \<Rightarrow> slice \<Rightarrow> 'a list
     \<Rightarrow> (nat \<Rightarrow> 'a list) \<times> nat \<times> slice" where
  "append_slice grow arrs next s xs =
     (let n = sl_len s + length xs in
      if n \<le> sl_cap s then
        (arrs(sl_array s := write_at (arrs (sl_array s)) (sl_len s) xs), next,
         s\<lparr>sl_len := n\<rparr>)
      else
        (arrs(next := view arrs s @ xs), next + 1,
         \<lparr>sl_array = next, sl_len = n, sl_cap = max n (grow (sl_cap s) n)\<rparr>))"

text \<open>
  The memory outside the handler structs: the \<open>slog.LevelVar\<close> cells, the backing
  arrays of filter and attribute slices, the next free array address, and the
  package-level map of context extractors. \<open>'c\<close> is the type of a non-nil
  \<open>context.Context\<close>.
\<close>

record ('c, 'v) world =
  LevelVars :: "nat \<Rightarrow> Level"
  filterArrays :: "nat \<Rightarrow> LogFilter list"
  attrArrays :: "nat \<Rightarrow> 'v Attr list"
  nextArray :: nat
  contextExtractors :: "string \<Rightarrow> ('c \<Rightarrow> string \<times> bool) option"

section \<open>The handler\<close>

record 'v Handler =
  inner :: "'v sink"
  globalLevel :: nat
  filters :: slice
  lowestLevel :: Level
  hasSourceFilters :: bool
  preformattedAttrs :: slice
  workDir :: string

definition NewHandler :: "'v golib \<Rightarrow> 'v sink \<Rightarrow> nat \<Rightarrow> 'v Handler" where
  "NewHandler L inn gl =
     (let wd = (case filepath_Abs_dot L of Some cwd \<Rightarrow> cwd | None \<Rightarrow> [])
      in \<lparr>inner = inn, globalLevel = gl, filters = nil_slice,
          lowestLevel = LevelError + 1, hasSourceFilters = False,
          preformattedAttrs = nil_slice, workDir = wd\<rparr>)"

definition GetFilters :: "('c, 'v) world \<Rightarrow> 'v Handler \<Rightarrow> LogFilter list" where
  "GetFilters w h = view (filterArrays w) (filters h)"

fun updateLowestLevel_loop ::
  "'v golib \<Rightarrow> Time \<Rightarrow> LogFilter list \<Rightarrow> Level \<times> bool \<Rightarrow> Level \<times> bool" where
  "updateLowestLevel_loop L now [] acc = acc"
| "updateLowestLevel_loop L now (f # fs) (low, src) =
     (if \<not> IsActive now f then updateLowestLevel_loop L now fs (low, src)
      else
        let level = ParseLevel L (Level f);
            low' = (if level < low then level else low);
            src' = (if IsSourceFilter f then True else src)
        in updateLowestLevel_loop L now fs (low', src'))"

definition updateLowestLevel ::
  "'v golib \<Rightarrow> Time \<Rightarrow> ('c, 'v) world \<Rightarrow> 'v Handler \<Rightarrow> 'v Handler" where
  "updateLowestLevel L now w h =
     (case updateLowestLevel_loop L now (view (filterArrays w) (filters h))
             (LevelError + 1, False) of
        (low, src) \<Rightarrow> h\<lparr>lowestLevel := low, hasSourceFilters := src\<rparr>)"

definition SetFilters ::
  "'v golib \<Rightarrow> Time \<Rightarrow> LogFilter list \<Rightarrow> 'v Handler \<Rightarrow> ('c, 'v) world
     \<Rightarrow> 'v Handler \<times> ('c, 'v) world" where
  "SetFilters L now fs h w =
     (case make_slice (filterArrays w) (nextArray w) fs (length fs) of
        (arrs, nxt, s) \<Rightarrow>
          let w' = w\<lparr>filterArrays := arrs, nextArray := nxt\<rparr>
          in (updateLowestLevel L now w' (h\<lparr>filters := s\<rparr>), w'))"

definition AddFilter ::
  "'v golib \<Rightarrow> Time \<Rightarrow> LogFilter \<Rightarrow> 'v Handler \<Rightarrow> ('c, 'v) world
     \<Rightarrow> 'v Handler \<times> ('c, 'v) world" where
  "AddFilter L now f h w =
     (case append_slice (growslice L) (filterArrays w) (nextArray w) (filters h) [f] of
        (arrs, nxt, s) \<Rightarrow>
          let w' = w\<lparr>filterArrays := arrs, nextArray := nxt\<rparr>
          in (updateLowestLevel L now w' (h\<lparr>filters := s\<rparr>), w'))"

text \<open>
  \<open>RemoveFilter\<close> makes an empty slice with the capacity of the old length and
  appends to it the filters it keeps, all within that capacity.
\<close>

definition RemoveFilter ::
  "'v golib \<Rightarrow> Time \<Rightarrow> string \<Rightarrow> string \<Rightarrow> 'v Handler \<Rightarrow> ('c, 'v) world
     \<Rightarrow> 'v Handler \<times> ('c, 'v) world" where
  "RemoveFilter L now filterType pattern h w =
     (let old = view (filterArrays w) (filters h);
          filtered = filter (\<lambda>f. Type f \<noteq> filterType \<or> Pattern f \<noteq> pattern) old
      in case make_slice (filterArrays w) (nextArray w) filtered (length old) of
        (arrs, nxt, s) \<Rightarrow>
          let w' = w\<lparr>filterArrays := arrs, nextArray := nxt\<rparr>
          in (updateLowestLevel L now w' (h\<lparr>filters := s\<rparr>), w'))"

definition ClearFilters ::
  "'v Handler \<Rightarrow> ('c, 'v) world \<Rightarrow> 'v Handler \<times> ('c, 'v) world" where
  "ClearFilters h w =
     (h\<lparr>filters := nil_slice, lowestLevel := LevelError + 1, hasSourceFilters := False\<rparr>, w)"

definition Enabled_level :: "('c, 'v) world \<Rightarrow> 'v Handler \<Rightarrow> Level \<Rightarrow> bool" where
  "Enabled_level w h level =
     (if level \<ge> LevelVars w (globalLevel h) then True
      else level \<ge> lowestLevel h)"

subsection \<open>Call-site resolution\<close>

definition formatSourcePath :: "'v golib \<Rightarrow> 'v Handler \<Rightarrow> string \<Rightarrow> string \<Rightarrow> string" where
  "formatSourcePath L h filePath functionName =
     (case (if workDir h \<noteq> [] then
              (case filepath_Rel L (workDir h) filePath of
                 Some rel \<Rightarrow> if \<not> HasPrefix rel ''..'' then Some rel else None
               | None \<Rightarrow> None)
            else None) of
        Some rel \<Rightarrow> rel
      | None \<Rightarrow>
          (case (if functionName \<noteq> [] then
                   (let lastSlash = LastIndex functionName ''/'' in
                    if lastSlash \<ge> 0 then
                      (let afterSlash = slice_from functionName (lastSlash + 1);
                           dotIdx = Index afterSlash ''.''
                       in if dotIdx \<ge> 0 then
                            (let modulePath = slice_to functionName (lastSlash + 1 + dotIdx);
                                 fileName = filepath_Base L filePath
                             in Some (''@'' @ modulePath @ ''/'' @ fileName))
                          else None)
                    else None)
                 else None) of
             Some p \<Rightarrow> p
           | None \<Rightarrow> filepath_Base L filePath))"

definition extractSource :: "'v golib \<Rightarrow> 'v Handler \<Rightarrow> nat \<Rightarrow> string \<times> string" where
  "extractSource L h pc =
     (case CallersFrames L pc of
        (frameFile, frameFunction) \<Rightarrow>
          (let file = (if frameFile \<noteq> [] then formatSourcePath L h frameFile frameFunction
                       else []);
               function =
                 (if frameFunction \<noteq> [] then
                    (let lastSlash = LastIndex frameFunction ''/'' in
                     if lastSlash \<ge> 0 then
                       (let afterSlash = slice_from frameFunction (lastSlash + 1);
                            dotIdx = Index afterSlash ''.''
                        in if dotIdx \<ge> 0 then slice_from afterSlash (dotIdx + 1)
                           else frameFunction)
                     else
                       (let dotIdx = Index frameFunction ''.''
                        in if dotIdx \<ge> 0 then slice_from frameFunction (dotIdx + 1)
                           else frameFunction))
                  else [])
           in (file, function)))"

subsection \<open>Context extraction\<close>

definition extractFromContext ::
  "('c, 'v) world \<Rightarrow> 'c option \<Rightarrow> string \<Rightarrow> string \<times> bool" where
  "extractFromContext w ctx key =
     (case ctx of
        None \<Rightarrow> ([], False)
      | Some c \<Rightarrow>
          (case contextExtractors w key of
             None \<Rightarrow> ([], False)
           | Some extractor \<Rightarrow> extractor c))"

subsection \<open>Handling a record\<close>

text \<open>The attribute map: pre-bound attributes first, then the record's own.\<close>

definition collect_attrs ::
  "'v golib \<Rightarrow> 'v Attr list \<Rightarrow> (string \<rightharpoonup> string) \<Rightarrow> (string \<rightharpoonup> string)" where
  "collect_attrs L as m = fold (\<lambda>a m. m(Key a \<mapsto> attrValueToString L (Value a))) as m"

text \<open>The \<open>switch\<close> of the loop body: the value a rule is matched against.\<close>

definition filter_value ::
  "('c, 'v) world \<Rightarrow> 'c option \<Rightarrow> (string \<rightharpoonup> string) \<Rightarrow> string \<Rightarrow> string \<Rightarrow> LogFilter
     \<Rightarrow> string \<times> bool" where
  "filter_value w ctx attrs sourceFile sourceFunction f =
     (if IsSourceFileFilter f then (sourceFile, sourceFile \<noteq> [])
      else if IsSourceFunctionFilter f then (sourceFunction, sourceFunction \<noteq> [])
      else if IsContextFilter f then extractFromContext w ctx (ContextKey f)
      else (case attrs (AttributeKey f) of
              Some v \<Rightarrow> (v, True)
            | None \<Rightarrow> ([], False)))"

fun Handle_loop ::
  "'v golib \<Rightarrow> Time \<Rightarrow> ('c, 'v) world \<Rightarrow> 'c option \<Rightarrow> (string \<rightharpoonup> string) \<Rightarrow> string \<Rightarrow> string
     \<Rightarrow> LogFilter list \<Rightarrow> Level \<times> LogFilter option \<Rightarrow> Level \<times> LogFilter option" where
  "Handle_loop L now w ctx attrs sf sfn [] acc = acc"
| "Handle_loop L now w ctx attrs sf sfn (f # fs) acc =
     (if \<not> IsActive now f then Handle_loop L now w ctx attrs sf sfn fs acc
      else
        (case filter_value w ctx attrs sf sfn f of
           (v, found) \<Rightarrow>
             if found \<and> Matches f v then (ParseLevel L (Level f), Some f)
             else Handle_loop L now w ctx attrs sf sfn fs acc))"

definition Handle ::
  "'v golib \<Rightarrow> Time \<Rightarrow> ('c, 'v) world \<Rightarrow> 'v Handler \<Rightarrow> 'c option \<Rightarrow> 'v Record \<Rightarrow> 'v outcome" where
  "Handle L now w h ctx r =
     (let attrs = collect_attrs L (Record_Attrs r)
                    (collect_attrs L (view (attrArrays w) (preformattedAttrs h)) Map.empty);
          fs = view (filterArrays w) (filters h);
          (sourceFile, sourceFunction) =
             (if hasSourceFilters h \<and> Record_PC r \<noteq> 0 then extractSource L h (Record_PC r)
              else ([], []))
      in case Handle_loop L now w ctx attrs sourceFile sourceFunction fs
                (LevelVars w (globalLevel h), None) of
           (effectiveLevel, matchedFilter) \<Rightarrow>
             if Record_Level r < effectiveLevel then Suppressed
             else
               (case matchedFilter of
                  Some f \<Rightarrow>
                    if HasOutputLevel f then
                      Forwarded (inner h)
                        (fold (\<lambda>a nr. AddAttrs L [a] nr) (Record_Attrs r)
                           (NewRecord (Record_Time r) (GetOutputLevel L f (Record_Level r))
                              (Record_Message r) (Record_PC r)))
                    else Forwarded (inner h) r
                | None \<Rightarrow> Forwarded (inner h) r))"

subsection \<open>Derived handlers\<close>

definition WithAttrs ::
  "'v golib \<Rightarrow> 'v Attr list \<Rightarrow> 'v Handler \<Rightarrow> ('c, 'v) world \<Rightarrow> 'v Handler \<times> ('c, 'v) world" where
  "WithAttrs L as h w =
     (case append_slice (growslice L) (attrArrays w) (nextArray w) (preformattedAttrs h) as of
        (arrs, nxt, s) \<Rightarrow>
          (\<lparr>inner = Sink_WithAttrs (inner h) as, globalLevel = globalLevel h,
            filters = filters h, lowestLevel = lowestLevel h,
            hasSourceFilters = hasSourceFilters h, preformattedAttrs = s,
            workDir = workDir h\<rparr>,
           w\<lparr>attrArrays := arrs, nextArray := nxt\<rparr>))"

definition WithGroup ::
  "string \<Rightarrow> 'v Handler \<Rightarrow> ('c, 'v) world \<Rightarrow> 'v Handler \<times> ('c, 'v) world" where
  "WithGroup name h w =
     (\<lparr>inner = Sink_WithGroup (inner h) name, globalLevel = globalLevel h,
       filters = filters h, lowestLevel = lowestLevel h,
       hasSourceFilters = hasSourceFilters h, preformattedAttrs = preformattedAttrs h,
       workDir = workDir h\<rparr>, w)"

section \<open>The properties, stated apart from the code\<close>

subsection \<open>Pattern matching\<close>

text \<open>
  What a pattern means, by its shape: \<open>sublist\<close>, \<open>prefix\<close> and \<open>suffix\<close> are the
  containment, prefix and suffix tests on lists.
\<close>

definition pattern_spec :: "string \<Rightarrow> string \<Rightarrow> bool" where
  "pattern_spec p v =
     (if p = [] then False
      else if p = ''*'' \<or> p = ''**'' then True
      else if hd p = CHR ''*'' \<and> last p = CHR ''*'' then sublist (butlast (tl p)) v
      else if last p = CHR ''*'' then prefix (butlast p) v
      else if hd p = CHR ''*'' then suffix (tl p) v
      else p = v)"

subsection \<open>Level names\<close>

text \<open>
  The table of level names, on a name that is already trimmed and in lower
  case, and trimming of ASCII white space at both ends.
\<close>

definition level_of_name :: "string \<Rightarrow> Level" where
  "level_of_name n =
     (if n = ''debug'' then LevelDebug
      else if n = ''warn'' \<or> n = ''warning'' then LevelWarn
      else if n = ''error'' then LevelError
      else LevelInfo)"

definition strip_ascii_space :: "string \<Rightarrow> string" where
  "strip_ascii_space s = rev (dropWhile asciiSpace (rev (dropWhile asciiSpace s)))"

subsection \<open>The module path of a function name\<close>

text \<open>
  \<open>after_last_slash\<close> is what follows the last \<open>/\<close> of a function name.
  \<open>module_path\<close> is everything before the first \<open>.\<close> that follows the last \<open>/\<close>;
  there is none when the name has no \<open>/\<close>, or no \<open>.\<close> after its last \<open>/\<close>.
  \<open>module_path_with_dot\<close> is the same with that \<open>.\<close> included.
  \<open>relativize_fails\<close>: there is no working directory, or \<open>filepath.Rel\<close>
  returns an error or a path that begins with \<open>..\<close>.
\<close>

definition after_last_slash :: "string \<Rightarrow> string" where
  "after_last_slash fn = rev (takeWhile (\<lambda>c. c \<noteq> CHR ''/'') (rev fn))"

definition module_path :: "string \<Rightarrow> string option" where
  "module_path fn =
     (if CHR ''/'' \<notin> set fn \<or> CHR ''.'' \<notin> set (after_last_slash fn) then None
      else Some (take (length fn - length (after_last_slash fn)) fn
                 @ takeWhile (\<lambda>c. c \<noteq> CHR ''.'') (after_last_slash fn)))"

definition module_path_with_dot :: "string \<Rightarrow> string option" where
  "module_path_with_dot fn = map_option (\<lambda>m. m @ ''.'') (module_path fn)"

definition relativize_fails :: "'v golib \<Rightarrow> 'v Handler \<Rightarrow> string \<Rightarrow> bool" where
  "relativize_fails L h filePath =
     (workDir h = [] \<or>
      (case filepath_Rel L (workDir h) filePath of
         None \<Rightarrow> True
       | Some rel \<Rightarrow> prefix ''..'' rel))"

subsection \<open>Rule evaluation\<close>

text \<open>
  The attribute map and the resolved call site that \<open>Handle\<close> computes for a
  record, the candidate value of a rule, and what it means that a rule matches
  a record: the rule is active, its candidate value is found, and its pattern
  matches that value. \<open>Handle_decision\<close> is the effective level and the
  winning rule that the loop of \<open>Handle\<close> ends with.
\<close>

definition Handle_attrs ::
  "'v golib \<Rightarrow> ('c, 'v) world \<Rightarrow> 'v Handler \<Rightarrow> 'v Record \<Rightarrow> (string \<rightharpoonup> string)" where
  "Handle_attrs L w h r =
     collect_attrs L (Record_Attrs r)
       (collect_attrs L (view (attrArrays w) (preformattedAttrs h)) Map.empty)"

definition Handle_source :: "'v golib \<Rightarrow> 'v Handler \<Rightarrow> 'v Record \<Rightarrow> string \<times> string" where
  "Handle_source L h r =
     (if hasSourceFilters h \<and> Record_PC r \<noteq> 0 then extractSource L h (Record_PC r)
      else ([], []))"

definition candidate ::
  "'v golib \<Rightarrow> ('c, 'v) world \<Rightarrow> 'v Handler \<Rightarrow> 'c option \<Rightarrow> 'v Record \<Rightarrow> LogFilter
     \<Rightarrow> string \<times> bool" where
  "candidate L w h ctx r f =
     filter_value w ctx (Handle_attrs L w h r)
       (fst (Handle_source L h r)) (snd (Handle_source L h r)) f"

definition rule_matches ::
  "'v golib \<Rightarrow> Time \<Rightarrow> ('c, 'v) world \<Rightarrow> 'v Handler \<Rightarrow> 'c option \<Rightarrow> 'v Record \<Rightarrow> LogFilter
     \<Rightarrow> bool" where
  "rule_matches L now w h ctx r f =
     (IsActive now f \<and> snd (candidate L w h ctx r f)
      \<and> Matches f (fst (candidate L w h ctx r f)))"

definition Handle_decision ::
  "'v golib \<Rightarrow> Time \<Rightarrow> ('c, 'v) world \<Rightarrow> 'v Handler \<Rightarrow> 'c option \<Rightarrow> 'v Record
     \<Rightarrow> Level \<times> LogFilter option" where
  "Handle_decision L now w h ctx r =
     Handle_loop L now w ctx (Handle_attrs L w h r)
       (fst (Handle_source L h r)) (snd (Handle_source L h r))
       (GetFilters w h) (LevelVars w (globalLevel h), None)"

text \<open>A record as the \<open>slog\<close> API builds it holds no empty group.\<close>

definition no_empty_groups :: "'v golib \<Rightarrow> 'v Record \<Rightarrow> bool" where
  "no_empty_groups L r = list_all (\<lambda>a. \<not> Value_isEmptyGroup L (Value a)) (Record_Attrs r)"

text \<open>
  The stringified value of the last attribute with key \<open>k\<close> in a list of
  attributes, if there is one.
\<close>

definition last_value :: "'v golib \<Rightarrow> string \<Rightarrow> 'v Attr list \<Rightarrow> string option" where
  "last_value L k as =
     (case filter (\<lambda>a. Key a = k) as of
        [] \<Rightarrow> None
      | x # xs \<Rightarrow> Some (attrValueToString L (Value (last (x # xs)))))"

text \<open>
  The value of a key that counts for a record: that of the last attribute
  with the key in the record itself, and only when the record has none, that
  of the last pre-bound attribute with the key. A rule on an attribute is one
  whose type is neither of the two source types nor begins with \<open>context:\<close>.
  \<open>matches_final\<close>: an active rule on an attribute matches when its pattern
  matches the value that counts for its key; a rule of another kind matches
  as \<open>rule_matches\<close> says.
\<close>

definition final_value ::
  "'v golib \<Rightarrow> ('c, 'v) world \<Rightarrow> 'v Handler \<Rightarrow> 'v Record \<Rightarrow> string \<Rightarrow> string option" where
  "final_value L w h r k =
     (case last_value L k (Record_Attrs r) of
        Some v \<Rightarrow> Some v
      | None \<Rightarrow> last_value L k (view (attrArrays w) (preformattedAttrs h)))"

definition attribute_rule :: "LogFilter \<Rightarrow> bool" where
  "attribute_rule f =
     (Type f \<noteq> ''source:file'' \<and> Type f \<noteq> ''source:function''
      \<and> \<not> prefix ''context:'' (Type f))"

definition matches_final ::
  "'v golib \<Rightarrow> Time \<Rightarrow> ('c, 'v) world \<Rightarrow> 'v Handler \<Rightarrow> 'c option \<Rightarrow> 'v Record \<Rightarrow> LogFilter
     \<Rightarrow> bool" where
  "matches_final L now w h ctx r f =
     (if attribute_rule f then
        IsActive now f \<and>
        (case final_value L w h r (Type f) of
           Some v \<Rightarrow> matchPattern (Pattern f) v
         | None \<Rightarrow> False)
      else rule_matches L now w h ctx r f)"

subsection \<open>The cache of a filter list\<close>

text \<open>
  The four mutating operations, and the two cached values as the data model
  describes them: the least parsed level of the rules active at \<open>now\<close>, or the
  level above Error when none is active, and whether some active rule has the
  type \<open>source:file\<close> or \<open>source:function\<close>.
\<close>

datatype mutation = Op_SetFilters "LogFilter list" | Op_AddFilter LogFilter
  | Op_RemoveFilter string string | Op_ClearFilters

definition mutate ::
  "'v golib \<Rightarrow> Time \<Rightarrow> mutation \<Rightarrow> 'v Handler \<Rightarrow> ('c, 'v) world
     \<Rightarrow> 'v Handler \<times> ('c, 'v) world" where
  "mutate L now op h w =
     (case op of
        Op_SetFilters fs \<Rightarrow> SetFilters L now fs h w
      | Op_AddFilter f \<Rightarrow> AddFilter L now f h w
      | Op_RemoveFilter ty pat \<Rightarrow> RemoveFilter L now ty pat h w
      | Op_ClearFilters \<Rightarrow> ClearFilters h w)"

definition lowest_active_level :: "'v golib \<Rightarrow> Time \<Rightarrow> LogFilter list \<Rightarrow> Level" where
  "lowest_active_level L now fs =
     (let act = filter (IsActive now) fs in
      if act = [] then LevelError + 1
      else Min (set (map (\<lambda>f. ParseLevel L (Level f)) act)))"

definition has_active_source :: "Time \<Rightarrow> LogFilter list \<Rightarrow> bool" where
  "has_active_source now fs =
     list_ex (\<lambda>f. Type f = ''source:file'' \<or> Type f = ''source:function'')
       (filter (IsActive now) fs)"

subsection \<open>Derived handlers and allocated memory\<close>

text \<open>
  A slice of a handler refers to an allocated array (one below the next free
  address) that holds at least as many written slots as the slice is long.
\<close>

definition slice_ok :: "(nat \<Rightarrow> 'a list) \<Rightarrow> nat \<Rightarrow> slice \<Rightarrow> bool" where
  "slice_ok arrs next s = (sl_array s < next \<and> sl_len s \<le> length (arrs (sl_array s)))"

definition handler_ok :: "('c, 'v) world \<Rightarrow> 'v Handler \<Rightarrow> bool" where
  "handler_ok w h =
     (slice_ok (filterArrays w) (nextArray w) (filters h)
      \<and> slice_ok (attrArrays w) (nextArray w) (preformattedAttrs h))"

datatype 'v derivation = By_WithAttrs "'v Attr list" | By_WithGroup string

definition derive ::
  "'v golib \<Rightarrow> 'v derivation \<Rightarrow> 'v Handler \<Rightarrow> ('c, 'v) world \<Rightarrow> 'v Handler \<times> ('c, 'v) world" where
  "derive L d h w =
     (case d of
        By_WithAttrs as \<Rightarrow> WithAttrs L as h w
      | By_WithGroup name \<Rightarrow> WithGroup name h w)"

definition bound_attrs :: "('c, 'v) world \<Rightarrow> 'v Handler \<Rightarrow> 'v Attr list" where
  "bound_attrs w h = view (attrArrays w) (preformattedAttrs h)"

definition added_attrs :: "'v derivation \<Rightarrow> 'v Attr list" where
  "added_attrs d = (case d of By_WithAttrs as \<Rightarrow> as | By_WithGroup name \<Rightarrow> [])"

section \<open>Instances for the examples\<close>

text \<open>
  A library whose values are strings of kind \<open>KindString\<close>, with the working
  directory \<open>/work\<close>. Its \<open>filepath\<close> functions are given at the paths the examples
  use, as \<open>path/filepath\<close> computes them there; the program counter 1 is a call
  in an external package and 2 a call in \<open>/work/internal/svc/run.go\<close>.
\<close>

definition example_lib :: "string golib" where
  "example_lib =
     \<lparr>Map_ToLower = (\<lambda>s. s), TrimFunc_IsSpace = (\<lambda>s. s), TrimRightFunc_IsSpace = (\<lambda>s. s),
      filepath_Abs_dot = Some ''/work'',
      filepath_Rel = (\<lambda>b t.
         if b = ''/work'' \<and> t = ''/go/pkg/mod/x/file.go'' then Some ''../go/pkg/mod/x/file.go''
         else if b = ''/work'' \<and> t = ''/work/internal/svc/run.go'' then Some ''internal/svc/run.go''
         else None),
      filepath_Base = (\<lambda>p.
         if p = ''/go/pkg/mod/x/file.go'' then ''file.go''
         else if p = ''/work/internal/svc/run.go'' then ''run.go''
         else p),
      CallersFrames = (\<lambda>pc.
         if pc = 1 then (''/go/pkg/mod/x/file.go'', ''github.com/user/repo/pkg.(*Type).Method'')
         else if pc = 2 then (''/work/internal/svc/run.go'', ''example.com/app/internal/svc.Run'')
         else ([], [])),
      growslice = (\<lambda>old n. if old = 0 then n else 2 * old),
      Value_Kind = (\<lambda>v. KindString), Value_String = (\<lambda>v. v),
      Value_Time_String = (\<lambda>v. v), Value_Duration_String = (\<lambda>v. v),
      Value_isEmptyGroup = (\<lambda>v. False)\<rparr>"

definition example_handler :: "string Handler" where
  "example_handler = NewHandler example_lib (Sink 0) 0"

text \<open>
  A world with the global level at Info in the level variable 0, no arrays
  allocated and no context extractor; four rules; a Debug record that carries
  the key \<open>job_id\<close> twice.
\<close>

definition example_world :: "(unit, string) world" where
  "example_world =
     \<lparr>LevelVars = (\<lambda>p. LevelInfo), filterArrays = (\<lambda>p. []), attrArrays = (\<lambda>p. []),
      nextArray = 1, contextExtractors = (\<lambda>k. None)\<rparr>"

definition rule_debug_jobs :: LogFilter where
  "rule_debug_jobs =
     \<lparr>Type = ''job_id'', Pattern = ''job_*'', Level = ''debug'', OutputLevel = ''info'',
      Enabled = True, ExpiresAt = None\<rparr>"

definition rule_error_job :: LogFilter where
  "rule_error_job =
     \<lparr>Type = ''job_id'', Pattern = ''job_123'', Level = ''error'', OutputLevel = [],
      Enabled = True, ExpiresAt = None\<rparr>"

definition rule_expiring :: LogFilter where
  "rule_expiring =
     \<lparr>Type = ''source:file'', Pattern = ''internal/*'', Level = ''debug'', OutputLevel = [],
      Enabled = True, ExpiresAt = Some 100\<rparr>"

definition rule_disabled :: LogFilter where
  "rule_disabled =
     \<lparr>Type = ''job_id'', Pattern = ''*'', Level = ''error'', OutputLevel = [],
      Enabled = False, ExpiresAt = None\<rparr>"

definition example_record :: "string Record" where
  "example_record =
     \<lparr>Record_Time = 50, Record_Message = ''processing'', Record_Level = LevelDebug,
      Record_PC = 2, Record_Attrs = [Attr ''job_id'' ''other'', Attr ''job_id'' ''job_123'']\<rparr>"

text \<open>
  The example handler after \<open>SetFilters\<close> at time 10 with the four rules, and a
  handler derived from it by \<open>WithAttrs\<close>.
\<close>

definition example_rules :: "LogFilter list" where
  "example_rules = [rule_expiring, rule_disabled, rule_debug_jobs, rule_error_job]"

definition example_state :: "string Handler \<times> (unit, string) world" where
  "example_state = SetFilters example_lib 10 example_rules example_handler example_world"

definition example_child :: "string Handler \<times> (unit, string) world" where
  "example_child =
     WithAttrs example_lib [Attr ''job_id'' ''job_7''] example_handler example_world"

text \<open>The parent of \<open>example_child\<close> after a later \<open>SetFilters\<close> at time 10.\<close>

definition example_parent_later :: "string Handler \<times> (unit, string) world" where
  "example_parent_later =
     SetFilters example_lib 10 [rule_debug_jobs] example_handler (snd example_child)"

text \<open>
  A parent whose filter slice has spare capacity after \<open>RemoveFilter\<close>, a
  handler derived from it by \<open>WithGroup\<close>, the parent after its \<open>AddFilter\<close>,
  and the derived handler after its own \<open>AddFilter\<close>.
\<close>

definition example_spare :: "string Handler \<times> (unit, string) world" where
  "example_spare =
     (case SetFilters example_lib 10 [rule_error_job, rule_disabled] example_handler
             example_world of
        (h, w) \<Rightarrow> RemoveFilter example_lib 20 ''job_id'' ''job_123'' h w)"

definition example_spare_child :: "string Handler \<times> (unit, string) world" where
  "example_spare_child = WithGroup ''g'' (fst example_spare) (snd example_spare)"

definition example_spare_parent_added :: "string Handler \<times> (unit, string) world" where
  "example_spare_parent_added =
     AddFilter example_lib 30 rule_error_job (fst example_spare) (snd example_spare_child)"

definition example_spare_child_added :: "string Handler \<times> (unit, string) world" where
  "example_spare_child_added =
     AddFilter example_lib 40 rule_debug_jobs (fst example_spare_child)
       (snd example_spare_parent_added)"

text \<open>
  A rule that lets Debug through for the job \<open>job_123\<close> only, installed at time
  10 on the handler derived with the pre-bound attribute \<open>job_id = job_7\<close>.
\<close>

definition rule_debug_job :: LogFilter where
  "rule_debug_job =
     \<lparr>Type = ''job_id'', Pattern = ''job_123'', Level = ''debug'', OutputLevel = [],
      Enabled = True, ExpiresAt = None\<rparr>"

definition example_child_rules :: "string Handler \<times> (unit, string) world" where
  "example_child_rules =
     SetFilters example_lib 10 [rule_expiring, rule_debug_job] (fst example_child)
       (snd example_child)"

section \<open>Lemmas on the string functions\<close>

lemma HasPrefix_prefix: "HasPrefix s p = prefix p s"
  unfolding HasPrefix_def prefix_def
  by (metis append_eq_conv_conj append_take_drop_id length_append le_add1)

lemma HasSuffix_suffix: "HasSuffix s p = suffix p s"
  unfolding HasSuffix_def suffix_def
  by (metis append_eq_conv_conj append_take_drop_id length_append le_add2
      diff_add_inverse2 length_drop)

lemma Index_from_sublist: "0 \<le> i \<Longrightarrow> (Index_from i s sub \<ge> 0) = sublist sub s"
proof (induction s arbitrary: i)
  case Nil
  then show ?case by simp
next
  case (Cons c s)
  have "0 \<le> i + 1" using Cons.prems by simp
  from Cons.IH [OF this] Cons.prems show ?case
    by (simp add: sublist_Cons_right HasPrefix_prefix)
qed

lemma Contains_sublist: "Contains s sub = sublist sub s"
  by (simp add: Contains_def Index_def Index_from_sublist)

lemma TrimPrefix_star: "HasPrefix p ''*'' \<Longrightarrow> TrimPrefix p ''*'' = tl p"
  by (cases p) (auto simp: TrimPrefix_def HasPrefix_def)

lemma TrimSuffix_star: "HasSuffix p ''*'' \<Longrightarrow> TrimSuffix p ''*'' = butlast p"
  by (simp add: TrimSuffix_def butlast_conv_take)

lemma HasPrefix_star: "HasPrefix p ''*'' = (p \<noteq> [] \<and> hd p = CHR ''*'')"
  by (cases p) (auto simp: HasPrefix_def)

lemma HasSuffix_star: "HasSuffix p ''*'' = (p \<noteq> [] \<and> last p = CHR ''*'')"
  by (cases p rule: rev_cases) (auto simp: HasSuffix_def)

lemma middle_empty_iff:
  assumes "p \<noteq> []" "hd p = CHR ''*''" "last p = CHR ''*''"
  shows "(butlast (tl p) = []) = (p = ''*'' \<or> p = ''**'')"
proof (cases p)
  case Nil
  then show ?thesis using assms by simp
next
  case (Cons a q)
  show ?thesis
  proof (cases q rule: rev_cases)
    case Nil
    then show ?thesis using Cons assms by simp
  next
    case (snoc r b)
    then show ?thesis using Cons assms by auto
  qed
qed

lemma Index_from_char:
  "Index_from i s [c] =
     (if c \<in> set s then i + int (length (takeWhile (\<lambda>x. x \<noteq> c) s)) else -1)"
  by (induction s arbitrary: i) (auto simp: HasPrefix_def)

lemma takeWhile_rev_shorter:
  assumes "c \<in> set s"
  shows "length (takeWhile (\<lambda>x. x \<noteq> c) (rev s)) < length s"
proof -
  have "takeWhile (\<lambda>x. x \<noteq> c) (rev s) \<noteq> rev s"
    using assms by auto
  then have "length (takeWhile (\<lambda>x. x \<noteq> c) (rev s)) \<noteq> length (rev s)"
    by (metis takeWhile_eq_take take_all order_refl)
  moreover have "length (takeWhile (\<lambda>x. x \<noteq> c) (rev s)) \<le> length (rev s)"
    by (rule length_takeWhile_le)
  ultimately show ?thesis by simp
qed

lemma LastIndex_from_char:
  "0 \<le> i \<Longrightarrow> LastIndex_from i s [c] =
     (if c \<in> set s
      then i + int (length s) - 1 - int (length (takeWhile (\<lambda>x. x \<noteq> c) (rev s)))
      else -1)"
proof (induction s arbitrary: i)
  case Nil
  then show ?case by simp
next
  case (Cons a s)
  have i1: "0 \<le> i + 1" using Cons.prems by simp
  have tw: "takeWhile (\<lambda>x. x \<noteq> c) (rev s @ [a]) =
     (if c \<in> set s then takeWhile (\<lambda>x. x \<noteq> c) (rev s)
      else rev s @ takeWhile (\<lambda>x. x \<noteq> c) [a])"
  proof (cases "c \<in> set s")
    case True
    then obtain x where "x \<in> set (rev s)" "\<not> x \<noteq> c" by auto
    then show ?thesis using True by simp
  next
    case False
    have "takeWhile (\<lambda>x. x \<noteq> c) (rev s @ [a]) = rev s @ takeWhile (\<lambda>x. x \<noteq> c) [a]"
      by (rule takeWhile_append2) (use False in auto)
    then show ?thesis using False by (simp only: if_False)
  qed
  show ?case
    using Cons.IH[OF i1] Cons.prems takeWhile_rev_shorter[of c s]
    by (auto simp add: Let_def tw HasPrefix_def)
qed

section \<open>The pattern matcher\<close>

text \<open>
  Claim C5. For every pattern \<open>p\<close> and value \<open>v\<close>, \<open>matchPattern p v\<close> is: false when
  \<open>p\<close> is empty; true for every \<open>v\<close>, the empty string included, when \<open>p\<close> is \<open>*\<close>
  or \<open>**\<close>; whether \<open>v\<close> contains the middle of \<open>p\<close> when \<open>p\<close> begins and ends
  with \<open>*\<close> around a non-empty middle; whether \<open>v\<close> begins with \<open>p\<close> less its last
  character when only the last character of \<open>p\<close> is \<open>*\<close>; whether \<open>v\<close> ends with
  \<open>p\<close> less its first character when only the first character is \<open>*\<close>; and
  \<open>p = v\<close> otherwise.
\<close>

theorem matchPattern_semantics: "matchPattern p v = pattern_spec p v"
proof (cases "p = []")
  case True
  then show ?thesis by (simp add: matchPattern_def pattern_spec_def)
next
  case False
  have sw: "HasPrefix p ''*'' = (hd p = CHR ''*'')" using False by (simp add: HasPrefix_star)
  have ew: "HasSuffix p ''*'' = (last p = CHR ''*'')" using False by (simp add: HasSuffix_star)
  show ?thesis
  proof (cases "hd p = CHR ''*''")
    case h: True
    have tp: "TrimPrefix p ''*'' = tl p"
      using False h by (simp add: TrimPrefix_star HasPrefix_star)
    show ?thesis
    proof (cases "last p = CHR ''*''")
      case l: True
      have ts: "HasSuffix (tl p) ''*'' \<or> tl p = []"
        using False h l by (cases p) (auto simp: HasSuffix_star)
      have m: "TrimSuffix (TrimPrefix p ''*'') ''*'' = butlast (tl p)"
        using ts unfolding tp
      proof
        assume "HasSuffix (tl p) ''*''"
        then show "TrimSuffix (tl p) ''*'' = butlast (tl p)" by (rule TrimSuffix_star)
      next
        assume "tl p = []"
        then show "TrimSuffix (tl p) ''*'' = butlast (tl p)"
          by (simp add: TrimSuffix_def HasSuffix_def)
      qed
      have "matchPattern p v =
          (if butlast (tl p) = [] then True else sublist (butlast (tl p)) v)"
        using False h l by (simp add: matchPattern_def sw ew m Contains_sublist)
      also have "\<dots> = pattern_spec p v"
        using False h l middle_empty_iff[OF False h l] by (simp add: pattern_spec_def)
      finally show ?thesis .
    next
      case l: False
      have ne: "p \<noteq> ''*''" "p \<noteq> ''**''" using l by auto
      have "matchPattern p v = HasSuffix v (tl p)"
        using False h l by (simp add: matchPattern_def sw ew tp)
      also have "\<dots> = suffix (tl p) v" by (rule HasSuffix_suffix)
      also have "\<dots> = pattern_spec p v"
        using False h l ne by (simp add: pattern_spec_def)
      finally show ?thesis .
    qed
  next
    case h: False
    have ne: "p \<noteq> ''*''" "p \<noteq> ''**''" using h by auto
    show ?thesis
    proof (cases "last p = CHR ''*''")
      case l: True
      have "TrimSuffix p ''*'' = butlast p" using False l by (simp add: TrimSuffix_star ew)
      then have "matchPattern p v = HasPrefix v (butlast p)"
        using False h l by (simp add: matchPattern_def sw ew)
      also have "\<dots> = prefix (butlast p) v" by (rule HasPrefix_prefix)
      also have "\<dots> = pattern_spec p v"
        using False h l ne by (simp add: pattern_spec_def)
      finally show ?thesis .
    next
      case l: False
      have "matchPattern p v = (p = v)"
        using False h l by (simp add: matchPattern_def sw ew)
      also have "\<dots> = pattern_spec p v"
        using False h l ne by (simp add: pattern_spec_def)
      finally show ?thesis .
    qed
  qed
qed

theorem matchPattern_semantics_witness:
  "matchPattern ''*rr*'' ''big_error_here'' \<and> \<not> matchPattern ''job_*'' ''task_1''
   \<and> matchPattern ''**'' []"
proof -
  have "sublist ''rr'' (''big_e'' @ ''rr'' @ ''or_here'')" by (rule sublist_appendI)
  then have a: "pattern_spec ''*rr*'' ''big_error_here''" by (simp add: pattern_spec_def)
  have b: "\<not> pattern_spec ''job_*'' ''task_1''" by (simp add: pattern_spec_def)
  have c: "pattern_spec ''**'' []" by (simp add: pattern_spec_def)
  show ?thesis
    using a b c by (simp only: matchPattern_semantics simp_thms)
qed

section \<open>Level parsing\<close>

lemma list_all_dropWhile: "list_all P xs \<Longrightarrow> list_all P (dropWhile Q xs)"
  by (induction xs) auto

lemma TrimSpace_ascii:
  assumes "list_all is_ascii s"
  shows "TrimSpace L s = strip_ascii_space s"
proof -
  let ?s1 = "dropWhile asciiSpace s"
  have a1: "list_all is_ascii ?s1" using assms by (rule list_all_dropWhile)
  then have h1: "?s1 \<noteq> [] \<Longrightarrow> is_ascii (hd ?s1)" by (cases ?s1) auto
  let ?r = "dropWhile asciiSpace (rev ?s1)"
  have "list_all is_ascii (rev ?s1)" using a1 by (simp add: list_all_iff)
  then have "list_all is_ascii ?r" by (rule list_all_dropWhile)
  then have h2: "?r \<noteq> [] \<Longrightarrow> is_ascii (hd ?r)" by (cases ?r) auto
  show ?thesis
    unfolding TrimSpace_def strip_ascii_space_def Let_def using h1 h2 by auto
qed

lemma strip_ascii: "list_all is_ascii s \<Longrightarrow> list_all is_ascii (strip_ascii_space s)"
  unfolding strip_ascii_space_def
  by (metis list_all_dropWhile list_all_iff set_rev)

lemma ParseLevel_less_sentinel: "ParseLevel L s < LevelError + 1"
  by (simp add: ParseLevel_def Let_def LevelDebug_def LevelInfo_def LevelWarn_def
      LevelError_def)

text \<open>
  Claim C6, as stated: \<open>ParseLevel\<close> maps the four names \<open>debug\<close>, \<open>info\<close>,
  \<open>warn\<close>, \<open>error\<close>, compared without regard to case, to their levels and every
  other string to Info. The string \<open>warning\<close> is none of the four names and is
  mapped to Warn; \<open>debug\<close> between spaces is none of them either and is mapped
  to Debug.
\<close>

theorem ParseLevel_counterexample:
  "ParseLevel example_lib ''warning'' = LevelWarn \<and> LevelWarn \<noteq> LevelInfo
   \<and> ParseLevel example_lib '' debug '' = LevelDebug \<and> LevelDebug \<noteq> LevelInfo"
  by code_simp

text \<open>
  Claim C6, amended. \<open>ParseLevel s\<close> trims the white space around \<open>s\<close>, turns the
  rest to lower case and looks the result up: \<open>debug\<close> is Debug, \<open>warn\<close> and
  \<open>warning\<close> are Warn, \<open>error\<close> is Error, and \<open>info\<close> and every other result are
  Info. For a string of ASCII bytes the trimming takes off tabs, line feeds,
  vertical tabs, form feeds, carriage returns and spaces at both ends, and the
  lower case is that of the letters A to Z.
\<close>

theorem ParseLevel_table:
  "ParseLevel L s = level_of_name (ToLower L (TrimSpace L s))
   \<and> (list_all is_ascii s \<longrightarrow>
        ParseLevel L s = level_of_name (map ascii_lower (strip_ascii_space s)))"
proof -
  have t: "ParseLevel L s = level_of_name (ToLower L (TrimSpace L s))"
    by (simp add: ParseLevel_def level_of_name_def Let_def)
  have "ParseLevel L s = level_of_name (map ascii_lower (strip_ascii_space s))"
    if a: "list_all is_ascii s"
    using a t by (simp add: TrimSpace_ascii ToLower_def strip_ascii)
  then show ?thesis using t by blast
qed

theorem ParseLevel_table_witness:
  "list_all is_ascii ''  WARNing  '' \<and> ParseLevel example_lib ''  WARNing  '' = LevelWarn
   \<and> ParseLevel example_lib ''ERROR'' = LevelError
   \<and> ParseLevel example_lib ''verbose'' = LevelInfo"
proof -
  have a: "list_all is_ascii ''  WARNing  ''" by code_simp
  have b: "level_of_name (map ascii_lower (strip_ascii_space ''  WARNing  '')) = LevelWarn"
    by code_simp
  have c: "list_all is_ascii ''ERROR''" by code_simp
  have d: "level_of_name (map ascii_lower (strip_ascii_space ''ERROR'')) = LevelError"
    by code_simp
  have e: "list_all is_ascii ''verbose''" by code_simp
  have f: "level_of_name (map ascii_lower (strip_ascii_space ''verbose'')) = LevelInfo"
    by code_simp
  show ?thesis
    using a b c d e f
      ParseLevel_table[of example_lib "''  WARNing  ''"]
      ParseLevel_table[of example_lib "''ERROR''"]
      ParseLevel_table[of example_lib "''verbose''"]
    by simp
qed

section \<open>Call-site paths outside the working directory\<close>

lemma LastIndex_slash:
  "LastIndex fn ''/'' =
     (if CHR ''/'' \<in> set fn then int (length fn) - 1 - int (length (after_last_slash fn))
      else -1)"
  by (simp add: LastIndex_def LastIndex_from_char after_last_slash_def)

lemma after_last_slash_shorter:
  "CHR ''/'' \<in> set fn \<Longrightarrow> length (after_last_slash fn) < length fn"
  by (simp add: after_last_slash_def takeWhile_rev_shorter)

lemma drop_after_last_slash:
  "drop (length fn - length (after_last_slash fn)) fn = after_last_slash fn"
proof -
  let ?t = "takeWhile (\<lambda>c. c \<noteq> CHR ''/'') (rev fn)"
  have "take (length ?t) (rev fn) = ?t" by (metis takeWhile_eq_take)
  then have "rev (take (length ?t) (rev fn)) = rev ?t" by simp
  then show ?thesis by (simp add: after_last_slash_def rev_take)
qed

text \<open>
  Claim C9, as stated: when relativizing fails or gives a path that begins
  with \<open>..\<close>, the display file is \<open>@\<close>, the module path, \<open>/\<close> and the base file
  name, where the module path runs up to and including the first \<open>.\<close> after the
  last \<open>/\<close> of the function name. For a file of an external package the code
  gives the module path without that \<open>.\<close>.
\<close>

theorem formatSourcePath_counterexample:
  "relativize_fails example_lib example_handler ''/go/pkg/mod/x/file.go''
   \<and> module_path_with_dot ''github.com/user/repo/pkg.(*Type).Method''
       = Some ''github.com/user/repo/pkg.''
   \<and> formatSourcePath example_lib example_handler ''/go/pkg/mod/x/file.go''
         ''github.com/user/repo/pkg.(*Type).Method''
       = ''@github.com/user/repo/pkg/file.go''
   \<and> formatSourcePath example_lib example_handler ''/go/pkg/mod/x/file.go''
         ''github.com/user/repo/pkg.(*Type).Method''
       \<noteq> ''@'' @ ''github.com/user/repo/pkg.'' @ ''/''
           @ filepath_Base example_lib ''/go/pkg/mod/x/file.go''"
  by code_simp

text \<open>
  Claim C9, amended. When there is no working directory, or relativizing the
  path against it fails or gives a path that begins with \<open>..\<close>, the display file
  is \<open>@\<close>, the module path, \<open>/\<close> and the base file name, where the module path is
  everything in the function name before the first \<open>.\<close> found after the last
  \<open>/\<close> (that \<open>.\<close> not included); when the function name has no \<open>/\<close>, or no \<open>.\<close>
  after its last \<open>/\<close>, the display file is the bare base file name.
\<close>

theorem formatSourcePath_fallback:
  assumes "relativize_fails L h filePath"
  shows "formatSourcePath L h filePath fn =
     (case module_path fn of
        Some m \<Rightarrow> ''@'' @ m @ ''/'' @ filepath_Base L filePath
      | None \<Rightarrow> filepath_Base L filePath)"
proof -
  have loc: "(if workDir h \<noteq> [] then
              (case filepath_Rel L (workDir h) filePath of
                 Some rel \<Rightarrow> if \<not> HasPrefix rel ''..'' then Some rel else None
               | None \<Rightarrow> None)
            else None) = None"
    using assms by (auto simp: relativize_fails_def HasPrefix_prefix split: option.splits)
  show ?thesis
  proof (cases "CHR ''/'' \<in> set fn")
    case False
    then have "LastIndex fn ''/'' = -1" by (simp add: LastIndex_slash)
    then show ?thesis using False
      unfolding formatSourcePath_def loc by (simp add: module_path_def)
  next
    case True
    let ?a = "after_last_slash fn"
    have ne: "fn \<noteq> []" using True by auto
    have li: "LastIndex fn ''/'' = int (length fn) - 1 - int (length ?a)"
      using True by (simp add: LastIndex_slash)
    have ge: "LastIndex fn ''/'' \<ge> 0" using li after_last_slash_shorter[OF True] by simp
    have sf: "slice_from fn (LastIndex fn ''/'' + 1) = ?a"
      using after_last_slash_shorter[OF True] drop_after_last_slash[of fn]
      by (simp add: slice_from_def li nat_diff_distrib')
    have ix: "Index ?a ''.'' = (if CHR ''.'' \<in> set ?a
        then int (length (takeWhile (\<lambda>c. c \<noteq> CHR ''.'') ?a)) else -1)"
      by (simp add: Index_def Index_from_char)
    show ?thesis
    proof (cases "CHR ''.'' \<in> set ?a")
      case d: False
      then show ?thesis using True ne ge
        unfolding formatSourcePath_def loc by (simp add: module_path_def sf ix Let_def)
    next
      case d: True
      let ?k = "length (takeWhile (\<lambda>c. c \<noteq> CHR ''.'') ?a)"
      have "nat (LastIndex fn ''/'' + 1 + int ?k) = (length fn - length ?a) + ?k"
        using after_last_slash_shorter[OF True] by (simp add: li)
      then have "slice_to fn (LastIndex fn ''/'' + 1 + int ?k)
          = take (length fn - length ?a) fn @ take ?k (drop (length fn - length ?a) fn)"
        by (simp add: slice_to_def take_add)
      also have "take ?k (drop (length fn - length ?a) fn)
          = takeWhile (\<lambda>c. c \<noteq> CHR ''.'') ?a"
        by (simp add: drop_after_last_slash) (metis takeWhile_eq_take)
      finally have st: "slice_to fn (LastIndex fn ''/'' + 1 + int ?k)
          = take (length fn - length ?a) fn @ takeWhile (\<lambda>c. c \<noteq> CHR ''.'') ?a" .
      show ?thesis using True d ne ge
        unfolding formatSourcePath_def loc by (simp add: module_path_def sf ix Let_def st)
    qed
  qed
qed

theorem formatSourcePath_fallback_witness:
  "relativize_fails example_lib example_handler ''/go/pkg/mod/x/file.go''
   \<and> formatSourcePath example_lib example_handler ''/go/pkg/mod/x/file.go''
        ''github.com/user/repo/pkg.(*Type).Method'' = ''@github.com/user/repo/pkg/file.go''
   \<and> formatSourcePath example_lib example_handler ''/go/pkg/mod/x/file.go''
        ''main.main'' = ''file.go''"
proof -
  have r: "relativize_fails example_lib example_handler ''/go/pkg/mod/x/file.go''"
    by code_simp
  have m1: "module_path ''github.com/user/repo/pkg.(*Type).Method''
      = Some ''github.com/user/repo/pkg''" by code_simp
  have m2: "module_path ''main.main'' = None" by code_simp
  have b: "filepath_Base example_lib ''/go/pkg/mod/x/file.go'' = ''file.go''" by code_simp
  show ?thesis
    using r formatSourcePath_fallback[OF r, of "''github.com/user/repo/pkg.(*Type).Method''"]
      formatSourcePath_fallback[OF r, of "''main.main''"]
    by (simp add: m1 m2 b)
qed

section \<open>The cache of a filter list\<close>

lemma updateLowestLevel_loop_fold:
  "updateLowestLevel_loop L now fs (low, src) =
     (fold min (map (\<lambda>f. ParseLevel L (Level f)) (filter (IsActive now) fs)) low,
      src \<or> list_ex IsSourceFilter (filter (IsActive now) fs))"
proof (induction fs arbitrary: low src)
  case Nil
  then show ?case by simp
next
  case (Cons f fs)
  show ?case
  proof (cases "IsActive now f")
    case False
    then show ?thesis using Cons.IH by simp
  next
    case True
    have m: "(if ParseLevel L (Level f) < low then ParseLevel L (Level f) else low)
        = min (ParseLevel L (Level f)) low" by (simp add: min_def)
    show ?thesis using True Cons.IH by (auto simp add: Let_def m)
  qed
qed

lemma fold_min_sentinel:
  assumes "list_all (\<lambda>x. x < (s::int)) xs"
  shows "fold min xs s = (if xs = [] then s else Min (set xs))"
proof (cases xs)
  case Nil
  then show ?thesis by simp
next
  case (Cons x ys)
  have "fold min xs s = Min (set (s # xs))" by (rule Min.set_eq_fold[symmetric])
  also have "\<dots> = min s (Min (set xs))" using Cons by simp
  finally have f: "fold min xs s = min s (Min (set xs))" .
  have "Min (set xs) \<in> set xs" using Cons by (intro Min_in) auto
  then have "Min (set xs) < s" using assms by (simp add: list_all_iff)
  then show ?thesis using f Cons by simp
qed

lemma IsSourceFilter_types:
  "IsSourceFilter f = (Type f = ''source:file'' \<or> Type f = ''source:function'')"
  by (simp add: IsSourceFilter_def IsSourceFileFilter_def IsSourceFunctionFilter_def
      SourceFilePrefix_def SourceFunctionPrefix_def)

lemma updateLowestLevel_cache:
  "lowestLevel (updateLowestLevel L now w h) = lowest_active_level L now (GetFilters w h)
   \<and> hasSourceFilters (updateLowestLevel L now w h) = has_active_source now (GetFilters w h)"
proof -
  let ?act = "filter (IsActive now) (GetFilters w h)"
  let ?lv = "map (\<lambda>f. ParseLevel L (Level f)) ?act"
  have "\<And>f. ParseLevel L (Level f) < LevelError + 1" by (rule ParseLevel_less_sentinel)
  then have "list_all (\<lambda>x. x < LevelError + 1) ?lv"
    unfolding list_all_iff by auto
  then have "fold min ?lv (LevelError + 1) = (if ?lv = [] then LevelError + 1 else Min (set ?lv))"
    by (rule fold_min_sentinel)
  moreover have "list_ex IsSourceFilter ?act = has_active_source now (GetFilters w h)"
    by (simp add: has_active_source_def list_ex_iff IsSourceFilter_types)
  ultimately show ?thesis
    by (simp add: updateLowestLevel_def GetFilters_def[symmetric] updateLowestLevel_loop_fold
        lowest_active_level_def Let_def)
qed

lemma updateLowestLevel_filters: "filters (updateLowestLevel L now w h) = filters h"
  by (simp add: updateLowestLevel_def split: prod.splits)

lemma GetFilters_updateLowestLevel:
  "GetFilters w' (updateLowestLevel L now w h) = GetFilters w' h"
  by (simp add: GetFilters_def updateLowestLevel_filters)

lemma mutate_cache:
  assumes "mutate L now op h w = (h', w')"
  shows "lowestLevel h' = lowest_active_level L now (GetFilters w' h')
   \<and> hasSourceFilters h' = has_active_source now (GetFilters w' h')"
proof (cases op)
  case (Op_SetFilters fs)
  then show ?thesis using assms
    by (auto simp: mutate_def SetFilters_def Let_def updateLowestLevel_cache
        GetFilters_updateLowestLevel split: prod.splits)
next
  case (Op_AddFilter f)
  then show ?thesis using assms
    by (auto simp: mutate_def AddFilter_def Let_def updateLowestLevel_cache
        GetFilters_updateLowestLevel split: prod.splits)
next
  case (Op_RemoveFilter ty pat)
  then show ?thesis using assms
    by (auto simp: mutate_def RemoveFilter_def Let_def updateLowestLevel_cache
        GetFilters_updateLowestLevel split: prod.splits)
next
  case Op_ClearFilters
  then show ?thesis using assms
    by (auto simp: mutate_def ClearFilters_def GetFilters_def nil_slice_def view_def
        lowest_active_level_def has_active_source_def)
qed

text \<open>
  Claim C7. After each of \<open>SetFilters\<close>, \<open>AddFilter\<close>, \<open>RemoveFilter\<close> and
  \<open>ClearFilters\<close>, performed at time \<open>now\<close>, the handler's \<open>lowestLevel\<close> is the
  least parsed level of the rules of its list that are active at \<open>now\<close> (the
  level above Error when none is), and \<open>hasSourceFilters\<close> holds exactly when
  some active rule has the type \<open>source:file\<close> or \<open>source:function\<close>.
\<close>

theorem cache_invariant:
  assumes "mutate L now op h w = (h', w')"
  shows "lowestLevel h' = lowest_active_level L now (GetFilters w' h')
   \<and> hasSourceFilters h' = has_active_source now (GetFilters w' h')"
  using assms by (rule mutate_cache)

theorem cache_invariant_witness:
  "mutate example_lib 10 (Op_SetFilters example_rules) example_handler example_world
     = example_state
   \<and> lowestLevel (fst example_state) = LevelDebug
   \<and> hasSourceFilters (fst example_state)
   \<and> lowestLevel (fst (mutate example_lib 200 (Op_RemoveFilter ''job_id'' ''job_*'')
        (fst example_state) (snd example_state))) = LevelError
   \<and> \<not> hasSourceFilters (fst (mutate example_lib 200 (Op_RemoveFilter ''job_id'' ''job_*'')
        (fst example_state) (snd example_state)))"
proof -
  let ?m = "mutate example_lib 200 (Op_RemoveFilter ''job_id'' ''job_*'')
        (fst example_state) (snd example_state)"
  have a: "mutate example_lib 10 (Op_SetFilters example_rules) example_handler example_world
     = (fst example_state, snd example_state)"
    by (simp add: mutate_def example_state_def)
  have b: "?m = (fst ?m, snd ?m)" by simp
  have g1: "GetFilters (snd example_state) (fst example_state) = example_rules" by code_simp
  have g2: "GetFilters (snd ?m) (fst ?m) = [rule_expiring, rule_disabled, rule_error_job]"
    by code_simp
  have l1: "lowest_active_level example_lib 10 example_rules = LevelDebug" by code_simp
  have s1: "has_active_source 10 example_rules" by code_simp
  have l2: "lowest_active_level example_lib 200 [rule_expiring, rule_disabled, rule_error_job]
      = LevelError" by code_simp
  have s2: "\<not> has_active_source 200 [rule_expiring, rule_disabled, rule_error_job]"
    by code_simp
  show ?thesis
    using a cache_invariant[OF a] cache_invariant[OF b]
    by (simp add: g1 g2 l1 s1 l2 s2)
qed

section \<open>Rule evaluation\<close>

lemma Handle_loop_find:
  "Handle_loop L now w ctx attrs sf sfn fs acc =
     (case find (\<lambda>f. IsActive now f \<and> snd (filter_value w ctx attrs sf sfn f)
                      \<and> Matches f (fst (filter_value w ctx attrs sf sfn f))) fs of
        None \<Rightarrow> acc
      | Some f \<Rightarrow> (ParseLevel L (Level f), Some f))"
  by (induction fs) (auto split: prod.splits)

lemma Handle_decision_find:
  "Handle_decision L now w h ctx r =
     (case find (rule_matches L now w h ctx r) (GetFilters w h) of
        None \<Rightarrow> (LevelVars w (globalLevel h), None)
      | Some f \<Rightarrow> (ParseLevel L (Level f), Some f))"
proof -
  have "rule_matches L now w h ctx r =
      (\<lambda>f. IsActive now f
         \<and> snd (filter_value w ctx (Handle_attrs L w h r) (fst (Handle_source L h r))
                 (snd (Handle_source L h r)) f)
         \<and> Matches f (fst (filter_value w ctx (Handle_attrs L w h r)
                 (fst (Handle_source L h r)) (snd (Handle_source L h r)) f)))"
    by (rule ext) (simp add: rule_matches_def candidate_def)
  then show ?thesis by (simp add: Handle_decision_def Handle_loop_find)
qed

lemma find_first:
  assumes "list_all (\<lambda>g. \<not> P g) pre" "P f"
  shows "find P (pre @ f # post) = Some f"
  using assms by (induction pre) auto

lemma Handle_by_decision:
  "Handle L now w h ctx r =
     (case Handle_decision L now w h ctx r of
        (effectiveLevel, matchedFilter) \<Rightarrow>
          if Record_Level r < effectiveLevel then Suppressed
          else
            (case matchedFilter of
               Some f \<Rightarrow>
                 if HasOutputLevel f then
                   Forwarded (inner h)
                     (fold (\<lambda>a nr. AddAttrs L [a] nr) (Record_Attrs r)
                        (NewRecord (Record_Time r) (GetOutputLevel L f (Record_Level r))
                           (Record_Message r) (Record_PC r)))
                 else Forwarded (inner h) r
             | None \<Rightarrow> Forwarded (inner h) r))"
  by (simp add: Handle_def Handle_decision_def Handle_attrs_def Handle_source_def
      GetFilters_def Let_def case_prod_beta)

lemma fold_AddAttrs:
  "fold (\<lambda>a nr. AddAttrs L [a] nr) as nr =
     nr\<lparr>Record_Attrs := Record_Attrs nr @ filter (\<lambda>a. \<not> Value_isEmptyGroup L (Value a)) as\<rparr>"
  by (induction as arbitrary: nr) (simp_all add: AddAttrs_def)

lemma copy_with_level:
  assumes "no_empty_groups L r"
  shows "fold (\<lambda>a nr. AddAttrs L [a] nr) (Record_Attrs r)
           (NewRecord (Record_Time r) lvl (Record_Message r) (Record_PC r))
         = r\<lparr>Record_Level := lvl\<rparr>"
proof -
  have "filter (\<lambda>a. \<not> Value_isEmptyGroup L (Value a)) (Record_Attrs r) = Record_Attrs r"
    using assms by (simp add: no_empty_groups_def list_all_iff)
  then show ?thesis by (cases r) (simp add: fold_AddAttrs NewRecord_def)
qed

lemma copy_level:
  "Record_Level (fold (\<lambda>a nr. AddAttrs L [a] nr) as
           (NewRecord t lvl m pc)) = lvl"
  by (simp add: fold_AddAttrs NewRecord_def)

text \<open>
  Claim C4. A record that is not suppressed and whose winning rule has a
  non-empty output level reaches the inner handler with its level replaced by
  the parsed output level and its time, message, program counter and attribute
  sequence as they were; when no rule matched, or the winning rule has no
  output level, the inner handler receives the record itself.
\<close>

theorem output_level_transform:
  assumes "no_empty_groups L r"
  shows "Handle L now w h ctx r =
     (if Record_Level r < fst (Handle_decision L now w h ctx r) then Suppressed
      else Forwarded (inner h)
        (case snd (Handle_decision L now w h ctx r) of
           None \<Rightarrow> r
         | Some f \<Rightarrow>
             if OutputLevel f = [] then r
             else r\<lparr>Record_Level := ParseLevel L (OutputLevel f)\<rparr>))"
  by (simp add: Handle_by_decision case_prod_beta HasOutputLevel_def GetOutputLevel_def
      copy_with_level[OF assms] split: option.splits)

text \<open>
  Claim C3. When the filter list is \<open>pre @ f # post\<close>, no rule of \<open>pre\<close> matches
  the record and \<open>f\<close> matches it, then the effective level is the parsed level
  of \<open>f\<close> and the winning rule is \<open>f\<close>, whatever the global level is and whatever
  rules follow in \<open>post\<close>: the record is suppressed exactly when its level is
  below the level of \<open>f\<close>, and a record forwarded under a non-empty output
  level of \<open>f\<close> carries that level.
\<close>

theorem first_match_wins:
  assumes "GetFilters w h = pre @ f # post"
    and "list_all (\<lambda>g. \<not> rule_matches L now w h ctx r g) pre"
    and "rule_matches L now w h ctx r f"
  shows "Handle_decision L now w h ctx r = (ParseLevel L (Level f), Some f)
    \<and> (Handle L now w h ctx r = Suppressed) = (Record_Level r < ParseLevel L (Level f))
    \<and> (\<not> Record_Level r < ParseLevel L (Level f) \<longrightarrow>
         (\<exists>r'. Handle L now w h ctx r = Forwarded (inner h) r'
            \<and> Record_Level r' =
                (if OutputLevel f = [] then Record_Level r
                 else ParseLevel L (OutputLevel f))))"
proof -
  have d: "Handle_decision L now w h ctx r = (ParseLevel L (Level f), Some f)"
    using assms by (simp add: Handle_decision_find find_first)
  show ?thesis
    by (simp add: d Handle_by_decision HasOutputLevel_def GetOutputLevel_def copy_level)
qed

theorem output_level_transform_witness:
  "no_empty_groups example_lib example_record
   \<and> Handle example_lib 200 (snd example_state) (fst example_state) None example_record
     = Forwarded (Sink 0) (example_record\<lparr>Record_Level := LevelInfo\<rparr>)"
proof -
  have a: "no_empty_groups example_lib example_record" by code_simp
  have d: "Handle_decision example_lib 200 (snd example_state) (fst example_state) None
      example_record = (LevelDebug, Some rule_debug_jobs)" by code_simp
  have i: "inner (fst example_state) = Sink 0" by code_simp
  have o: "OutputLevel rule_debug_jobs = ''info''" by code_simp
  have p: "ParseLevel example_lib ''info'' = LevelInfo" by code_simp
  have l: "\<not> Record_Level example_record < LevelDebug" by code_simp
  show ?thesis
    using a output_level_transform[OF a, of 200 "snd example_state" "fst example_state" None]
    by (simp add: d i o p l)
qed

theorem first_match_wins_witness:
  "rule_matches example_lib 200 (snd example_state) (fst example_state) None example_record
     rule_error_job
   \<and> Handle_decision example_lib 200 (snd example_state) (fst example_state) None
        example_record = (ParseLevel example_lib (Level rule_debug_jobs), Some rule_debug_jobs)
   \<and> ParseLevel example_lib (Level rule_debug_jobs) = LevelDebug
   \<and> ParseLevel example_lib (Level rule_error_job) = LevelError"
proof -
  have g: "GetFilters (snd example_state) (fst example_state)
      = [rule_expiring, rule_disabled] @ rule_debug_jobs # [rule_error_job]" by code_simp
  have p: "list_all (\<lambda>g. \<not> rule_matches example_lib 200 (snd example_state)
      (fst example_state) None example_record g) [rule_expiring, rule_disabled]" by code_simp
  have m: "rule_matches example_lib 200 (snd example_state) (fst example_state) None
      example_record rule_debug_jobs" by code_simp
  have e: "rule_matches example_lib 200 (snd example_state) (fst example_state) None
      example_record rule_error_job" by code_simp
  have l1: "ParseLevel example_lib (Level rule_debug_jobs) = LevelDebug" by code_simp
  have l2: "ParseLevel example_lib (Level rule_error_job) = LevelError" by code_simp
  show ?thesis using first_match_wins[OF g p m] e l1 l2 by simp
qed

section \<open>The fast reject\<close>

lemma IsActive_earlier: "t0 \<le> t \<Longrightarrow> IsActive t f \<Longrightarrow> IsActive t0 f"
  by (auto simp: IsActive_def IsExpired_def After_def split: option.splits if_splits)

lemma lowest_active_level_le:
  assumes "f \<in> set fs" "IsActive now f"
  shows "lowest_active_level L now fs \<le> ParseLevel L (Level f)"
proof -
  let ?lv = "map (\<lambda>f. ParseLevel L (Level f)) (filter (IsActive now) fs)"
  have "ParseLevel L (Level f) \<in> set ?lv" using assms by auto
  then have "Min (set ?lv) \<le> ParseLevel L (Level f)" by (intro Min_le) auto
  moreover have "filter (IsActive now) fs \<noteq> []" using assms by (auto simp: filter_empty_conv)
  ultimately show ?thesis by (simp add: lowest_active_level_def Let_def)
qed

lemma find_SomeD: "find P xs = Some x \<Longrightarrow> P x \<and> x \<in> set xs"
  by (induction xs) (auto split: if_splits)

text \<open>
  Let a mutating operation performed at time \<open>t0\<close> leave the handler \<open>h'\<close>, and
  let a record be evaluated at a time \<open>t\<close> from \<open>t0\<close> on, in any memory in which
  the filter list of \<open>h'\<close> is still the one the operation left (the global
  level, the extractors and the attributes may have changed). If \<open>Enabled\<close>
  returns false for the level of the record, \<open>Handle\<close> suppresses the record: a
  rule that is active at \<open>t\<close> was active at \<open>t0\<close>, so its level is not below the
  cached \<open>lowestLevel\<close>.
\<close>

lemma fast_reject_sound_unshared:
  assumes "mutate L t0 op h w = (h', w')"
    and "t0 \<le> t"
    and "GetFilters w'' h' = GetFilters w' h'"
    and "\<not> Enabled_level w'' h' (Record_Level r)"
  shows "Handle L t w'' h' ctx r = Suppressed"
proof -
  have low: "lowestLevel h' = lowest_active_level L t0 (GetFilters w' h')"
    using mutate_cache[OF assms(1)] by simp
  have g: "Record_Level r < LevelVars w'' (globalLevel h')"
    and l: "Record_Level r < lowestLevel h'"
    using assms(4) by (auto simp: Enabled_level_def split: if_splits)
  have "Record_Level r < fst (Handle_decision L t w'' h' ctx r)"
  proof (cases "find (rule_matches L t w'' h' ctx r) (GetFilters w'' h')")
    case None
    then show ?thesis using g by (simp add: Handle_decision_find)
  next
    case (Some f)
    from find_SomeD[OF Some] have "IsActive t f" "f \<in> set (GetFilters w' h')"
      using assms(3) by (auto simp: rule_matches_def)
    then have "lowest_active_level L t0 (GetFilters w' h') \<le> ParseLevel L (Level f)"
      using IsActive_earlier[OF assms(2)] by (intro lowest_active_level_le) auto
    then show ?thesis using l low Some by (simp add: Handle_decision_find)
  qed
  then show ?thesis by (simp add: Handle_by_decision case_prod_beta)
qed

text \<open>
  Claim C1. For a handler whose cached \<open>lowestLevel\<close> and \<open>hasSourceFilters\<close> were
  computed by a mutating operation at a time \<open>t0\<close>, and a record evaluated at
  a time from \<open>t0\<close> on, \<open>Enabled\<close> returning false means that \<open>Handle\<close> suppresses
  the record. The code breaks this once a derived handler has appended to the
  backing array it shares with its parent. \<open>RemoveFilter\<close> at time 20 leaves the
  parent a slice of length 1 and capacity 2; \<open>WithGroup\<close> copies the slice
  header; \<open>AddFilter\<close> on the parent at time 30 writes the Error rule into slot
  1 and caches \<open>lowestLevel\<close> Error; \<open>AddFilter\<close> on the derived handler at time
  40 writes the Debug rule into the same slot. At time 50 the parent's
  \<open>Enabled\<close> is false for Debug, and its \<open>Handle\<close> forwards the Debug record.
\<close>

theorem fast_reject_after_shared_append:
  "filters (fst example_spare) = \<lparr>sl_array = 2, sl_len = 1, sl_cap = 2\<rparr>
   \<and> filters (fst example_spare_child) = filters (fst example_spare)
   \<and> GetFilters (snd example_spare_parent_added) (fst example_spare_parent_added)
       = [rule_disabled, rule_error_job]
   \<and> lowestLevel (fst example_spare_parent_added) = LevelError
   \<and> GetFilters (snd example_spare_child_added) (fst example_spare_parent_added)
       = [rule_disabled, rule_debug_jobs]
   \<and> \<not> Enabled_level (snd example_spare_child_added) (fst example_spare_parent_added)
         (Record_Level example_record)
   \<and> Handle example_lib 50 (snd example_spare_child_added)
        (fst example_spare_parent_added) None example_record
      = Forwarded (Sink 0) (example_record\<lparr>Record_Level := LevelInfo\<rparr>)"
  by code_simp

section \<open>Duplicate attribute keys\<close>

lemma collect_attrs_last:
  "collect_attrs L as m k = (case last_value L k as of Some v \<Rightarrow> Some v | None \<Rightarrow> m k)"
proof (induction as arbitrary: m)
  case Nil
  then show ?case by (simp add: collect_attrs_def last_value_def)
next
  case (Cons a as)
  have "collect_attrs L (a # as) m k
      = collect_attrs L as (m(Key a \<mapsto> attrValueToString L (Value a))) k"
    by (simp add: collect_attrs_def)
  also have "\<dots> = (case last_value L k as of
        Some v \<Rightarrow> Some v
      | None \<Rightarrow> (m(Key a \<mapsto> attrValueToString L (Value a))) k)"
    by (rule Cons.IH)
  also have "\<dots> = (case last_value L k (a # as) of Some v \<Rightarrow> Some v | None \<Rightarrow> m k)"
    by (auto simp: last_value_def split: list.splits)
  finally show ?case .
qed

lemma Handle_attrs_final: "Handle_attrs L w h r k = final_value L w h r k"
  by (simp add: Handle_attrs_def final_value_def collect_attrs_last split: option.splits)

lemma attribute_rule_kinds:
  "attribute_rule f =
     (\<not> IsSourceFileFilter f \<and> \<not> IsSourceFunctionFilter f \<and> \<not> IsContextFilter f)"
  by (simp add: attribute_rule_def IsSourceFileFilter_def IsSourceFunctionFilter_def
      IsContextFilter_def SourceFilePrefix_def SourceFunctionPrefix_def ContextPrefix_def
      HasPrefix_prefix)

lemma rule_matches_final: "rule_matches L now w h ctx r f = matches_final L now w h ctx r f"
proof (cases "attribute_rule f")
  case False
  then show ?thesis by (simp add: matches_final_def)
next
  case True
  then have k: "\<not> IsSourceFileFilter f" "\<not> IsSourceFunctionFilter f" "\<not> IsContextFilter f"
    by (simp_all add: attribute_rule_kinds)
  have "candidate L w h ctx r f =
      (case final_value L w h r (Type f) of Some v \<Rightarrow> (v, True) | None \<Rightarrow> ([], False))"
    using k by (simp add: candidate_def filter_value_def AttributeKey_def IsSourceFilter_def
        Handle_attrs_final)
  then show ?thesis using True
    by (simp add: matches_final_def rule_matches_def Matches_def split: option.splits)
qed

text \<open>
  Claim C10. When a record carries a key more than once, rules are matched
  against the stringified value of the last occurrence of the key in the
  record, and a pre-bound attribute of that key counts only when the record
  has none: \<open>Handle\<close> takes as winner the first rule of the list that matches
  in this sense, a rule on an attribute being matched against that one value
  only, and suppresses or forwards the record by the level of that rule (by
  the global level when there is none).
\<close>

theorem last_attribute_wins:
  assumes "no_empty_groups L r"
  shows "Handle L now w h ctx r =
     (case find (matches_final L now w h ctx r) (GetFilters w h) of
        None \<Rightarrow>
          if Record_Level r < LevelVars w (globalLevel h) then Suppressed
          else Forwarded (inner h) r
      | Some f \<Rightarrow>
          if Record_Level r < ParseLevel L (Level f) then Suppressed
          else Forwarded (inner h)
                 (if OutputLevel f = [] then r
                  else r\<lparr>Record_Level := ParseLevel L (OutputLevel f)\<rparr>))"
proof -
  have m: "rule_matches L now w h ctx r = matches_final L now w h ctx r"
    by (rule ext) (rule rule_matches_final)
  show ?thesis
    by (simp add: Handle_by_decision Handle_decision_find m HasOutputLevel_def
        GetOutputLevel_def copy_with_level[OF assms] split: option.splits)
qed

theorem last_attribute_wins_witness:
  "no_empty_groups example_lib example_record
   \<and> Record_Attrs example_record = [Attr ''job_id'' ''other'', Attr ''job_id'' ''job_123'']
   \<and> view (attrArrays (snd example_child_rules)) (preformattedAttrs (fst example_child_rules))
       = [Attr ''job_id'' ''job_7'']
   \<and> GetFilters (snd example_child_rules) (fst example_child_rules)
       = [rule_expiring, rule_debug_job]
   \<and> final_value example_lib (snd example_child_rules) (fst example_child_rules)
        example_record ''job_id'' = Some ''job_123''
   \<and> Handle example_lib 200 (snd example_child_rules) (fst example_child_rules) None
        example_record
      = Forwarded (Sink_WithAttrs (Sink 0) [Attr ''job_id'' ''job_7'']) example_record"
proof -
  have a: "no_empty_groups example_lib example_record" by code_simp
  have b: "Record_Attrs example_record
      = [Attr ''job_id'' ''other'', Attr ''job_id'' ''job_123'']" by code_simp
  have c: "view (attrArrays (snd example_child_rules))
      (preformattedAttrs (fst example_child_rules)) = [Attr ''job_id'' ''job_7'']"
    by code_simp
  have g: "GetFilters (snd example_child_rules) (fst example_child_rules)
      = [rule_expiring, rule_debug_job]" by code_simp
  have v: "final_value example_lib (snd example_child_rules) (fst example_child_rules)
        example_record ''job_id'' = Some ''job_123''" by code_simp
  have f: "find (matches_final example_lib 200 (snd example_child_rules)
        (fst example_child_rules) None example_record) [rule_expiring, rule_debug_job]
      = Some rule_debug_job" by code_simp
  have l: "\<not> Record_Level example_record < ParseLevel example_lib (Level rule_debug_job)"
    by code_simp
  have o: "OutputLevel rule_debug_job = []" by code_simp
  have i: "inner (fst example_child_rules)
      = Sink_WithAttrs (Sink 0) [Attr ''job_id'' ''job_7'']" by code_simp
  have "Handle example_lib 200 (snd example_child_rules) (fst example_child_rules) None
        example_record
      = Forwarded (Sink_WithAttrs (Sink 0) [Attr ''job_id'' ''job_7'']) example_record"
    using last_attribute_wins[OF a, of 200 "snd example_child_rules"
        "fst example_child_rules" None]
    by (simp only: g f option.case l if_False o if_True i simp_thms)
  then show ?thesis using a b c g v by simp
qed

section \<open>What \<open>Handle\<close> reads\<close>

lemma formatSourcePath_workDir:
  "workDir h = workDir h' \<Longrightarrow> formatSourcePath L h p fn = formatSourcePath L h' p fn"
  by (simp add: formatSourcePath_def)

lemma extractSource_workDir:
  "workDir h = workDir h' \<Longrightarrow> extractSource L h pc = extractSource L h' pc"
  by (simp add: extractSource_def formatSourcePath_workDir[of h h'] split: prod.splits)

lemma filter_value_no_source:
  "\<not> IsSourceFilter f \<Longrightarrow>
     filter_value w ctx attrs sf sfn f = filter_value w ctx attrs sf' sfn' f"
  by (simp add: filter_value_def IsSourceFilter_def)

lemma filter_value_world:
  "contextExtractors w = contextExtractors w' \<Longrightarrow>
     filter_value w ctx attrs sf sfn f = filter_value w' ctx attrs sf sfn f"
  by (simp add: filter_value_def extractFromContext_def cong: option.case_cong)

lemma find_filter_implied:
  "(\<And>x. P x \<Longrightarrow> Q x) \<Longrightarrow> find P (filter Q xs) = find P xs"
  by (induction xs) auto

lemma find_cong_active:
  "(\<And>x. x \<in> set xs \<Longrightarrow> P x = P' x) \<Longrightarrow> find P xs = find P' xs"
  by (induction xs) auto

lemma Handle_cong:
  assumes i: "inner h = inner h'"
    and g: "LevelVars w (globalLevel h) = LevelVars w' (globalLevel h')"
    and a: "bound_attrs w h = bound_attrs w' h'"
    and c: "contextExtractors w = contextExtractors w'"
    and d: "workDir h = workDir h'"
    and f: "filter (IsActive now) (GetFilters w h) = filter (IsActive now) (GetFilters w' h')"
    and s: "hasSourceFilters h = hasSourceFilters h'
            \<or> \<not> list_ex IsSourceFilter (filter (IsActive now) (GetFilters w h))"
  shows "Handle L now w h ctx r = Handle L now w' h' ctx r"
proof -
  let ?act = "filter (IsActive now) (GetFilters w h)"
  have at: "Handle_attrs L w h r = Handle_attrs L w' h' r"
    using a by (simp add: Handle_attrs_def bound_attrs_def)
  have m: "rule_matches L now w h ctx r x = rule_matches L now w' h' ctx r x"
    if x: "x \<in> set ?act" for x
  proof -
    have "candidate L w h ctx r x = candidate L w' h' ctx r x"
      using s
    proof
      assume "hasSourceFilters h = hasSourceFilters h'"
      then have "Handle_source L h r = Handle_source L h' r"
        using extractSource_workDir[OF d] by (simp add: Handle_source_def)
      then show ?thesis using filter_value_world[OF c] by (simp add: candidate_def at)
    next
      assume "\<not> list_ex IsSourceFilter ?act"
      then have "\<not> IsSourceFilter x" using x by (auto simp: list_ex_iff)
      then show ?thesis
        using filter_value_world[OF c] filter_value_no_source
        unfolding candidate_def at by metis
    qed
    then show ?thesis by (simp add: rule_matches_def)
  qed
  have "find (rule_matches L now w h ctx r) (GetFilters w h)
      = find (rule_matches L now w h ctx r) ?act"
    by (rule find_filter_implied[symmetric]) (simp add: rule_matches_def)
  also have "\<dots> = find (rule_matches L now w' h' ctx r) ?act"
    by (rule find_cong_active) (rule m)
  also have "\<dots> = find (rule_matches L now w' h' ctx r) (GetFilters w' h')"
    unfolding f by (rule find_filter_implied) (simp add: rule_matches_def)
  finally have "Handle_decision L now w h ctx r = Handle_decision L now w' h' ctx r"
    using g by (simp add: Handle_decision_find cong: option.case_cong)
  then show ?thesis unfolding Handle_by_decision i by simp
qed

section \<open>Inactive rules\<close>

lemma SetFilters_result:
  assumes "SetFilters L now fs h w = (h', w')"
  shows "inner h' = inner h" "globalLevel h' = globalLevel h" "workDir h' = workDir h"
    "preformattedAttrs h' = preformattedAttrs h"
    "LevelVars w' = LevelVars w" "attrArrays w' = attrArrays w"
    "contextExtractors w' = contextExtractors w"
    "GetFilters w' h' = fs"
    "hasSourceFilters h' = has_active_source now fs"
proof -
  let ?w = "w\<lparr>filterArrays := (filterArrays w)(nextArray w := fs), nextArray := nextArray w + 1\<rparr>"
  let ?h = "h\<lparr>filters := \<lparr>sl_array = nextArray w, sl_len = length fs, sl_cap = length fs\<rparr>\<rparr>"
  have h': "h' = updateLowestLevel L now ?w ?h" and w': "w' = ?w"
    using assms by (auto simp: SetFilters_def make_slice_def Let_def)
  have gf: "GetFilters ?w ?h = fs" by (simp add: GetFilters_def view_def)
  show "inner h' = inner h" "globalLevel h' = globalLevel h" "workDir h' = workDir h"
    "preformattedAttrs h' = preformattedAttrs h"
    by (simp_all add: h' updateLowestLevel_def split: prod.splits)
  show "LevelVars w' = LevelVars w" "attrArrays w' = attrArrays w"
    "contextExtractors w' = contextExtractors w"
    by (simp_all add: w')
  show "GetFilters w' h' = fs"
    using gf by (simp add: h' w' GetFilters_updateLowestLevel)
  show "hasSourceFilters h' = has_active_source now fs"
    using updateLowestLevel_cache[of L now ?w ?h] gf by (simp add: h')
qed

lemma IsActive_expiry:
  "IsActive t f =
     (Enabled f \<and> (case ExpiresAt f of None \<Rightarrow> True | Some e \<Rightarrow> e = 0 \<or> t \<le> e))"
  by (auto simp: IsActive_def IsExpired_def IsZero_def After_def split: option.splits)

text \<open>
  Claim C8. Evaluated at a time \<open>t\<close>, a handler whose list \<open>fs\<close> was installed
  earlier and a handler whose list is the sublist of the rules of \<open>fs\<close> active at
  \<open>t\<close> give the same outcome for every context and record. A rule is active
  when it is enabled and its expiry is absent, zero or not before \<open>t\<close>; a rule
  that is not active at \<open>t\<close> matches no record.
\<close>

theorem inactive_rules_inert:
  assumes "SetFilters L t0 fs h w = (h1, w1)"
    and "SetFilters L t0' (filter (IsActive t) fs) h w = (h2, w2)"
    and "t0 \<le> t" and "t0' \<le> t"
  shows "Handle L t w1 h1 ctx r = Handle L t w2 h2 ctx r
    \<and> IsActive t f =
        (Enabled f \<and> (case ExpiresAt f of None \<Rightarrow> True | Some e \<Rightarrow> e = 0 \<or> t \<le> e))
    \<and> (\<not> IsActive t f \<longrightarrow> \<not> rule_matches L t w1 h1 ctx r f)"
proof -
  note r1 = SetFilters_result[OF assms(1)] and r2 = SetFilters_result[OF assms(2)]
  have src: "hasSourceFilters h1 = hasSourceFilters h2
      \<or> \<not> list_ex IsSourceFilter (filter (IsActive t) (GetFilters w1 h1))"
  proof (cases "list_ex IsSourceFilter (filter (IsActive t) fs)")
    case False
    then show ?thesis by (simp add: r1)
  next
    case True
    then obtain x where x: "x \<in> set fs" "IsActive t x" "IsSourceFilter x"
      by (auto simp: list_ex_iff)
    have "IsActive t0 x" "IsActive t0' x"
      using x IsActive_earlier assms(3,4) by blast+
    then have "has_active_source t0 fs" "has_active_source t0' (filter (IsActive t) fs)"
      using x by (auto simp: has_active_source_def list_ex_iff IsSourceFilter_types)
    then show ?thesis by (simp add: r1 r2)
  qed
  have "Handle L t w1 h1 ctx r = Handle L t w2 h2 ctx r"
    by (rule Handle_cong) (use src in \<open>simp_all add: r1 r2 bound_attrs_def\<close>)
  then show ?thesis
    by (simp add: IsActive_expiry[symmetric] rule_matches_def)
qed

theorem inactive_rules_inert_witness:
  "filter (IsActive 200) example_rules = [rule_debug_jobs, rule_error_job]
   \<and> Handle example_lib 200 (snd example_state) (fst example_state) None example_record
     = Handle example_lib 200
         (snd (SetFilters example_lib 150 [rule_debug_jobs, rule_error_job] example_handler
            example_world))
         (fst (SetFilters example_lib 150 [rule_debug_jobs, rule_error_job] example_handler
            example_world))
         None example_record
   \<and> \<not> rule_matches example_lib 200 (snd example_state) (fst example_state) None
         example_record rule_expiring"
proof -
  let ?s = "SetFilters example_lib 150 (filter (IsActive 200) example_rules) example_handler
            example_world"
  have a: "SetFilters example_lib 10 example_rules example_handler example_world
      = (fst example_state, snd example_state)" by (simp add: example_state_def)
  have b: "?s = (fst ?s, snd ?s)" by simp
  have t: "(10::int) \<le> 200" "(150::int) \<le> 200" by simp_all
  have f: "filter (IsActive 200) example_rules = [rule_debug_jobs, rule_error_job]"
    by code_simp
  have n: "\<not> IsActive 200 rule_expiring" by code_simp
  show ?thesis
    using inactive_rules_inert[OF a b t, of None example_record rule_expiring] n
    by (simp add: f)
qed

section \<open>Derived handlers\<close>

lemma view_write_at_below:
  "sl_len s \<le> length arr \<Longrightarrow> take (sl_len s) (write_at arr (sl_len s) xs) = take (sl_len s) arr"
  by (simp add: write_at_def)

lemma view_write_at_new:
  "sl_len s \<le> length arr \<Longrightarrow>
     take (sl_len s + length xs) (write_at arr (sl_len s) xs) = take (sl_len s) arr @ xs"
  by (simp add: write_at_def)

lemma append_slice_views:
  assumes "slice_ok arrs next s"
    and "append_slice g arrs next s xs = (arrs', next', s')"
  shows "view arrs' s' = view arrs s @ xs \<and> view arrs' s = view arrs s
    \<and> slice_ok arrs' next' s' \<and> slice_ok arrs' next' s \<and> next \<le> next'"
proof -
  have ok: "sl_array s < next" "sl_len s \<le> length (arrs (sl_array s))"
    using assms(1) by (simp_all add: slice_ok_def)
  show ?thesis
  proof (cases "sl_len s + length xs \<le> sl_cap s")
    case True
    then have r: "arrs' = arrs(sl_array s := write_at (arrs (sl_array s)) (sl_len s) xs)"
      "next' = next" "s' = s\<lparr>sl_len := sl_len s + length xs\<rparr>"
      using assms(2) by (simp_all add: append_slice_def Let_def)
    have "view arrs' s' = view arrs s @ xs"
      using ok by (simp add: r view_def view_write_at_new)
    moreover have "view arrs' s = view arrs s"
      using ok by (simp add: r view_def view_write_at_below)
    moreover have "slice_ok arrs' next' s'" "slice_ok arrs' next' s"
      using ok by (simp_all add: r slice_ok_def write_at_def)
    ultimately show ?thesis by (simp add: r)
  next
    case False
    then have r: "arrs' = arrs(next := view arrs s @ xs)" "next' = next + 1"
      "s' = \<lparr>sl_array = next, sl_len = sl_len s + length xs,
             sl_cap = max (sl_len s + length xs) (g (sl_cap s) (sl_len s + length xs))\<rparr>"
      using assms(2) by (simp_all add: append_slice_def Let_def)
    have lv: "length (view arrs s) = sl_len s" using ok by (simp add: view_def)
    have "view arrs' s' = view arrs s @ xs"
      using lv by (simp add: r view_def)
    moreover have "view arrs' s = view arrs s"
      using ok by (simp add: r view_def)
    moreover have "slice_ok arrs' next' s'" "slice_ok arrs' next' s"
      using ok lv by (simp_all add: r slice_ok_def)
    ultimately show ?thesis by (simp add: r)
  qed
qed

lemma derive_fields:
  assumes "derive L d h w = (c, w1)"
  shows "filters c = filters h" "lowestLevel c = lowestLevel h"
    "hasSourceFilters c = hasSourceFilters h" "globalLevel c = globalLevel h"
    "workDir c = workDir h"
    "inner c = (case d of By_WithAttrs as \<Rightarrow> Sink_WithAttrs (inner h) as
                | By_WithGroup name \<Rightarrow> Sink_WithGroup (inner h) name)"
    "filterArrays w1 = filterArrays w" "LevelVars w1 = LevelVars w"
    "contextExtractors w1 = contextExtractors w"
  using assms by (auto simp: derive_def WithAttrs_def WithGroup_def
      split: derivation.splits prod.splits)

lemma derive_attrs:
  assumes ok: "handler_ok w h" and d: "derive L d h w = (c, w1)"
  shows "bound_attrs w1 c = bound_attrs w h @ added_attrs d
    \<and> bound_attrs w1 h = bound_attrs w h \<and> handler_ok w1 h \<and> handler_ok w1 c"
proof (cases d)
  case (By_WithAttrs as)
  have oks: "slice_ok (filterArrays w) (nextArray w) (filters h)"
    "slice_ok (attrArrays w) (nextArray w) (preformattedAttrs h)"
    using ok by (simp_all add: handler_ok_def)
  obtain arrs nxt s where a: "append_slice (growslice L) (attrArrays w) (nextArray w)
      (preformattedAttrs h) as = (arrs, nxt, s)"
    by (cases "append_slice (growslice L) (attrArrays w) (nextArray w)
      (preformattedAttrs h) as") auto
  from append_slice_views[OF oks(2) a]
  have v: "view arrs s = view (attrArrays w) (preformattedAttrs h) @ as"
    "view arrs (preformattedAttrs h) = view (attrArrays w) (preformattedAttrs h)"
    "slice_ok arrs nxt s" "slice_ok arrs nxt (preformattedAttrs h)" "nextArray w \<le> nxt"
    by simp_all
  have c: "preformattedAttrs c = s" "filters c = filters h"
    and w1: "attrArrays w1 = arrs" "nextArray w1 = nxt" "filterArrays w1 = filterArrays w"
    using d a By_WithAttrs by (auto simp: derive_def WithAttrs_def)
  have "handler_ok w1 h" "handler_ok w1 c"
    using v(3,4,5) oks(1) by (auto simp: handler_ok_def c w1 slice_ok_def)
  then show ?thesis
    using v(1,2) by (simp add: bound_attrs_def c w1 added_attrs_def By_WithAttrs)
next
  case (By_WithGroup name)
  then have "w1 = w" "preformattedAttrs c = preformattedAttrs h" "filters c = filters h"
    using d by (auto simp: derive_def WithGroup_def)
  then show ?thesis
    using ok by (simp add: bound_attrs_def added_attrs_def By_WithGroup handler_ok_def)
qed

text \<open>
  Claim C2. A handler derived by \<open>WithAttrs\<close> or \<open>WithGroup\<close> shares the filter
  store of its parent, so that \<open>SetFilters\<close>, \<open>AddFilter\<close>, \<open>RemoveFilter\<close> and
  \<open>ClearFilters\<close> after the derivation are seen by the evaluation and by
  \<open>GetFilters\<close> of both handlers, and the derivation leaves the parent as it
  was. The derivation does leave the parent as it was (the lemmas above), but
  the code shares only the level variable, by pointer: the filter slice header
  and the two cached values are copied into the new struct. After \<open>WithAttrs\<close>
  and a later \<open>SetFilters\<close> on the parent at time 10, the parent has the new
  rule and forwards the Debug record, while the derived handler still has the
  empty list and suppresses it.
\<close>

theorem derived_handler_keeps_old_filters:
  "globalLevel (fst example_child) = globalLevel example_handler
   \<and> GetFilters (snd example_child) (fst example_child) = []
   \<and> GetFilters (snd example_parent_later) (fst example_parent_later) = [rule_debug_jobs]
   \<and> GetFilters (snd example_parent_later) (fst example_child) = []
   \<and> Handle example_lib 50 (snd example_parent_later) (fst example_parent_later) None
        example_record
      = Forwarded (Sink 0) (example_record\<lparr>Record_Level := LevelInfo\<rparr>)
   \<and> Handle example_lib 50 (snd example_parent_later) (fst example_child) None
        example_record = Suppressed"
  by code_simp

end
